theory Spec2Isabelle
  imports Main
begin

section \<open>Data model of Timer.py\<close>

text \<open>
  A roster entry is the dictionary built in \<open>_add_update_speaker\<close>, with the
  keys \<open>name\<close>, \<open>title\<close>, \<open>notes\<close> (here \<open>notes_field\<close>: the plain name is a
  keyword), \<open>minutes\<close> and \<open>seconds\<close>. Python's integers are unbounded, so both times
  are \<open>int\<close>.
\<close>

record speaker =
  name :: string
  title :: string
  notes_field :: string
  minutes :: int
  seconds :: int

text \<open>
  The module-level dictionary \<open>timer_state\<close>: the five keys the HTTP handler
  serialises.
\<close>

record snapshot =
  time_text :: string
  speaker_name :: string
  speaker_segment :: string
  is_warning :: bool
  is_past_zero :: bool

text \<open>The \<open>state\<close> option of a button: \<open>"normal"\<close> or \<open>"disabled"\<close>.\<close>

datatype widget_state = normal | disabled

text \<open>
  The attributes of \<open>ChurchTimerApp\<close> that the timer logic reads or writes, the
  texts of the two labels of the main window, the states of the START and STOP
  buttons (the RESET button is never disabled), and the two pieces of process-wide
  state: the dictionary \<open>timer_state\<close> and Tk's queue of callbacks scheduled
  with \<open>master.after(1000, self._update_timer)\<close>, of which only the number
  matters. \<open>publications\<close> records every execution of the locked block of
  \<open>_update_shared_timer_state\<close>, newest first: the write to the shared
  dictionary is the effect the pollers observe.
\<close>

record app =
  time_left :: int
  running :: bool
  warning_threshold :: int
  speakers :: "speaker list"
  current_speaker_index :: int
  speaker_display_window :: bool
  timer_label :: string
  warning_message_label :: string
  start_button :: widget_state
  stop_button :: widget_state
  timer_state :: snapshot
  publications :: "snapshot list"
  after_queue :: nat

text \<open>
  How a method ends: it returns, it shows a message box and returns, or an
  \<open>IndexError\<close> leaves it. A Python exception keeps every assignment made before
  it, so each method returns the state it reached together with its outcome.
\<close>

datatype dialog =
    No_Speaker
  | Invalid_Time_Unset
  | Invalid_Time_Zero
  | Input_Error
  | Invalid_Time_Range
  | Invalid_Time_Number
  | No_Selection
  | Roster_Empty

datatype outcome = Done | Dialog dialog | IndexError

section \<open>Python primitives\<close>

text \<open>\<open>xs[i]\<close>: a negative index counts from the end, an index out of range raises.\<close>

definition getitem :: "'a list \<Rightarrow> int \<Rightarrow> 'a option" where
  "getitem xs i =
     (let n = int (length xs); j = (if i < 0 then i + n else i)
      in if 0 \<le> j \<and> j < n then Some (xs ! nat j) else None)"

text \<open>\<open>del xs[i]\<close> for an index that is in range.\<close>

definition delitem :: "'a list \<Rightarrow> nat \<Rightarrow> 'a list" where
  "delitem xs i = take i xs @ drop (Suc i) xs"

definition digit_char :: "nat \<Rightarrow> char" where
  "digit_char d = ''0123456789'' ! d"

text \<open>\<open>str(n)\<close> for a natural number: its decimal digits.\<close>

function str_nat :: "nat \<Rightarrow> string" where
  "str_nat n = (if n < 10 then [digit_char n] else str_nat (n div 10) @ [digit_char (n mod 10)])"
  by pat_completeness auto
termination
  by (relation "measure (\<lambda>n. n)") auto

declare str_nat.simps [simp del]

text \<open>
  \<open>format(n, "02d")\<close>: the sign, then the digits padded with zeros so that the
  whole field has at least two characters.
\<close>

definition format_02d :: "int \<Rightarrow> string" where
  "format_02d n =
     (if n < 0 then CHR ''-'' # str_nat (nat (- n))
      else replicate (2 - length (str_nat (nat n))) CHR ''0'' @ str_nat (nat n))"

section \<open>The timer\<close>

text \<open>The string \<open>time_format\<close> that \<open>_display_time\<close> builds from \<open>time_left\<close>.\<close>

definition time_format :: "int \<Rightarrow> string" where
  "time_format t =
     (if t \<ge> 0 then format_02d (t div 60) @ '':'' @ format_02d (t mod 60)
      else (let abs_time_left = \<bar>t\<bar>
            in ''-'' @ format_02d (abs_time_left div 60) @ '':'' @ format_02d (abs_time_left mod 60)))"

definition display_time :: "app \<Rightarrow> app" where
  "display_time s = s\<lparr>timer_label := time_format (time_left s)\<rparr>"

text \<open>
  \<open>_update_shared_timer_state\<close>: the name and the segment of the current speaker
  (or \<open>"N/A"\<close>), then the five assignments under the lock. The push to the
  speaker display window renders only and is left out.
\<close>

definition update_shared_timer_state :: "app \<Rightarrow> outcome \<times> app" where
  "update_shared_timer_state s =
     (case (if current_speaker_index s \<noteq> - 1 \<and> speakers s \<noteq> []
            then map_option (\<lambda>current_speaker. (name current_speaker, title current_speaker))
                   (getitem (speakers s) (current_speaker_index s))
            else Some (''N/A'', ''N/A'')) of
        None \<Rightarrow> (IndexError, s)
      | Some (speaker_name_to_display, speaker_segment_to_display) \<Rightarrow>
          (let written =
                 \<lparr>time_text = timer_label s,
                  speaker_name = speaker_name_to_display,
                  speaker_segment = speaker_segment_to_display,
                  is_warning = (0 < time_left s \<and> time_left s \<le> warning_threshold s),
                  is_past_zero = (time_left s < 0)\<rparr>
           in (Done, s\<lparr>timer_state := written, publications := written # publications s\<rparr>)))"

text \<open>
  \<open>_update_timer\<close>, the tick. Of the label configuration only the warning text is
  kept (the colours follow the same three branches). The last statement puts the
  method back into Tk's queue.
\<close>

definition update_timer :: "app \<Rightarrow> outcome \<times> app" where
  "update_timer s =
     (if running s then
        (let s1 = display_time (s\<lparr>time_left := time_left s - 1\<rparr>);
             current_warning_text =
               (if time_left s1 < 0 then ''TIME'' @ [CHR 0x27] @ ''S UP!''
                else if 0 \<le> time_left s1 \<and> time_left s1 \<le> warning_threshold s1 then ''ROUND UP!''
                else [])
         in (case update_shared_timer_state (s1\<lparr>warning_message_label := current_warning_text\<rparr>) of
               (Done, s2) \<Rightarrow> (Done, s2\<lparr>after_queue := Suc (after_queue s2)\<rparr>)
             | raised \<Rightarrow> raised))
      else (Done, s))"

definition stop_timer :: "app \<Rightarrow> app" where
  "stop_timer s = s\<lparr>running := False, start_button := normal, stop_button := disabled\<rparr>"

definition load_speaker_details :: "int \<Rightarrow> app \<Rightarrow> outcome \<times> app" where
  "load_speaker_details index s =
     (if 0 \<le> index \<and> index < int (length (speakers s)) then
        (let speaker = speakers s ! nat index
         in update_shared_timer_state
              ((display_time (s\<lparr>current_speaker_index := index,
                                 time_left := minutes speaker * 60 + seconds speaker\<rparr>))
                 \<lparr>warning_message_label := [], start_button := normal, stop_button := disabled\<rparr>))
      else
        update_shared_timer_state
          ((display_time (s\<lparr>current_speaker_index := - 1, time_left := 0\<rparr>))
             \<lparr>warning_message_label := [], start_button := normal, stop_button := disabled\<rparr>))"

definition reset_timer :: "app \<Rightarrow> outcome \<times> app" where
  "reset_timer s =
     (let s0 = stop_timer s in
      if current_speaker_index s0 \<noteq> - 1 \<and> speakers s0 \<noteq> []
         \<and> current_speaker_index s0 < int (length (speakers s0)) then
        (case getitem (speakers s0) (current_speaker_index s0) of
           None \<Rightarrow> (IndexError, s0)
         | Some current_speaker \<Rightarrow>
             update_shared_timer_state
               ((display_time (s0\<lparr>time_left := minutes current_speaker * 60 + seconds current_speaker\<rparr>))
                  \<lparr>warning_message_label := []\<rparr>))
      else
        update_shared_timer_state
          ((display_time (s0\<lparr>current_speaker_index := - 1, time_left := 0\<rparr>))
             \<lparr>warning_message_label := [], start_button := normal, stop_button := disabled\<rparr>))"

text \<open>
  \<open>_start_timer\<close>. The three \<open>return\<close>s after \<open>messagebox.showerror\<close> are the
  three dialogs; the two "Invalid Time" boxes are told apart by their message.
\<close>

definition start_timer :: "app \<Rightarrow> outcome \<times> app" where
  "start_timer s =
     (if \<not> running s then
        (case (if current_speaker_index s = - 1 \<and> speakers s = [] then (Dialog No_Speaker, s)
               else if current_speaker_index s = - 1 \<and> speakers s \<noteq> [] then load_speaker_details 0 s
               else (Done, s)) of
           (Done, s1) \<Rightarrow>
             (case (if time_left s1 = 0 \<and> speakers s1 = [] then (Dialog Invalid_Time_Unset, s1)
                    else if time_left s1 = 0 \<and> current_speaker_index s1 \<noteq> - 1 then
                      (case getitem (speakers s1) (current_speaker_index s1) of
                         None \<Rightarrow> (IndexError, s1)
                       | Some current_speaker \<Rightarrow>
                           if minutes current_speaker = 0 \<and> seconds current_speaker = 0
                           then (Dialog Invalid_Time_Zero, s1) else (Done, s1))
                    else (Done, s1)) of
                (Done, s2) \<Rightarrow>
                  (case update_timer (s2\<lparr>running := True\<rparr>) of
                     (Done, s3) \<Rightarrow> (Done, s3\<lparr>start_button := disabled, stop_button := normal\<rparr>)
                   | raised \<Rightarrow> raised)
              | stopped \<Rightarrow> stopped)
         | stopped \<Rightarrow> stopped)
      else (Done, s))"

definition next_speaker :: "app \<Rightarrow> outcome \<times> app" where
  "next_speaker s =
     (if speakers s = [] then (Dialog Roster_Empty, s)
      else
        (let s0 = stop_timer s;
             s1 = s0\<lparr>current_speaker_index := current_speaker_index s0 + 1\<rparr>;
             s2 = (if current_speaker_index s1 \<ge> int (length (speakers s1))
                   then s1\<lparr>current_speaker_index := 0\<rparr> else s1)
         in load_speaker_details (current_speaker_index s2) s2))"

section \<open>The roster\<close>

text \<open>
  \<open>_add_update_speaker\<close>. The arguments are what the method reads from the
  widgets: the selection of the list box (\<open>None\<close> for the empty tuple), the
  stripped texts of the name, title and notes fields, and the results of
  \<open>int(minutes_str)\<close> and \<open>int(seconds_str)\<close>, \<open>None\<close> where \<open>int\<close> raises
  \<open>ValueError\<close>.
\<close>

definition add_update_speaker ::
  "nat option \<Rightarrow> string \<Rightarrow> string \<Rightarrow> string \<Rightarrow> int option \<Rightarrow> int option \<Rightarrow> app \<Rightarrow> outcome \<times> app" where
  "add_update_speaker selected_indices entered_name entered_title entered_notes minutes_str seconds_str s =
     (if entered_name = [] then (Dialog Input_Error, s)
      else
        (case (minutes_str, seconds_str) of
           (Some m, Some sec) \<Rightarrow>
             if \<not> (0 \<le> m \<and> m < 1000 \<and> 0 \<le> sec \<and> sec < 60) then (Dialog Invalid_Time_Range, s)
             else
               (let entry = \<lparr>name = entered_name, title = entered_title, notes_field = entered_notes,
                              minutes = m, seconds = sec\<rparr>
                in case selected_indices of
                     Some index_to_update \<Rightarrow>
                       if index_to_update < length (speakers s) then
                         (let s1 = s\<lparr>speakers := (speakers s)[index_to_update := entry]\<rparr>
                          in if current_speaker_index s1 = int index_to_update
                             then load_speaker_details (int index_to_update) s1
                             else (Done, s1))
                       else (IndexError, s)
                   | None \<Rightarrow>
                       (let s1 = s\<lparr>speakers := speakers s @ [entry]\<rparr>
                        in if current_speaker_index s1 = - 1 then load_speaker_details 0 s1
                           else (Done, s1)))
         | _ \<Rightarrow> (Dialog Invalid_Time_Number, s)))"

text \<open>
  \<open>_remove_speaker\<close>: the selection and the answer to \<open>askyesno\<close>. The whole body
  is inside \<open>try\<close>, so every \<open>IndexError\<close> ends in the "No Selection" warning.
\<close>

definition remove_speaker :: "nat option \<Rightarrow> bool \<Rightarrow> app \<Rightarrow> outcome \<times> app" where
  "remove_speaker selection confirmed s =
     (case selection of
        None \<Rightarrow> (Dialog No_Selection, s)
      | Some selected_index \<Rightarrow>
          if selected_index < length (speakers s) then
            (if confirmed then
               (let s1 = s\<lparr>speakers := delitem (speakers s) selected_index\<rparr>
                in if current_speaker_index s1 = int selected_index then
                     (case reset_timer (s1\<lparr>current_speaker_index := - 1\<rparr>) of
                        (IndexError, s2) \<Rightarrow> (Dialog No_Selection, s2)
                      | returned \<Rightarrow> returned)
                   else if current_speaker_index s1 > int selected_index then
                     (Done, s1\<lparr>current_speaker_index := current_speaker_index s1 - 1\<rparr>)
                   else (Done, s1))
             else (Done, s))
          else (Dialog No_Selection, s))"

text \<open>\<open>_on_roster_select\<close>: \<open>except IndexError: pass\<close>.\<close>

definition on_roster_select :: "nat option \<Rightarrow> app \<Rightarrow> outcome \<times> app" where
  "on_roster_select selection s =
     (case selection of
        None \<Rightarrow> (Done, s)
      | Some selected_index \<Rightarrow>
          if selected_index < length (speakers s) then
            (if \<not> running s \<and> current_speaker_index s \<noteq> int selected_index then
               (case load_speaker_details (int selected_index) s of
                  (IndexError, s1) \<Rightarrow> (Done, s1)
                | returned \<Rightarrow> returned)
             else (Done, s))
          else (Done, s))"

definition open_speaker_display :: "app \<Rightarrow> outcome \<times> app" where
  "open_speaker_display s =
     (if \<not> speaker_display_window s
      then update_shared_timer_state (s\<lparr>speaker_display_window := True\<rparr>)
      else (Done, s))"

definition on_speaker_display_close :: "app \<Rightarrow> app" where
  "on_speaker_display_close s = s\<lparr>speaker_display_window := False\<rparr>"

section \<open>The application and its events\<close>

definition default_timer_state :: snapshot where
  "default_timer_state =
     \<lparr>time_text = ''00:00'', speaker_name = ''N/A'', speaker_segment = ''N/A'',
      is_warning = False, is_past_zero = False\<rparr>"

text \<open>
  \<open>ChurchTimerApp.__init__\<close>: the attributes, the widgets as
  \<open>_create_widgets\<close> makes them, then \<open>self._load_speaker_details(-1)\<close>.
\<close>

definition created :: app where
  "created =
     \<lparr>time_left = 0, running = False, warning_threshold = 60, speakers = [],
      current_speaker_index = - 1, speaker_display_window = False,
      timer_label = ''00:00'', warning_message_label = [],
      start_button = normal, stop_button = normal,
      timer_state = default_timer_state, publications = [], after_queue = 0\<rparr>"

definition init_app :: app where
  "init_app = snd (load_speaker_details (- 1) created)"

text \<open>
  What can happen to the running application: a button is pressed (Tk ignores
  a press on a disabled button), the list box reports a selection, the speaker
  display is opened or closed, or a scheduled \<open>_update_timer\<close> is due.
\<close>

datatype event =
    Press_Start
  | Press_Stop
  | Press_Reset
  | Press_Next_Speaker
  | Press_Add_Update "nat option" string string string "int option" "int option"
  | Press_Remove "nat option" bool
  | Roster_Select "nat option"
  | Press_Open_Display
  | Close_Display
  | After_Fires

fun handle :: "event \<Rightarrow> app \<Rightarrow> app" where
  "handle Press_Start s = (if start_button s = normal then snd (start_timer s) else s)"
| "handle Press_Stop s = (if stop_button s = normal then stop_timer s else s)"
| "handle Press_Reset s = snd (reset_timer s)"
| "handle Press_Next_Speaker s = snd (next_speaker s)"
| "handle (Press_Add_Update sel n t no m sec) s = snd (add_update_speaker sel n t no m sec s)"
| "handle (Press_Remove sel yes) s = snd (remove_speaker sel yes s)"
| "handle (Roster_Select sel) s = snd (on_roster_select sel s)"
| "handle Press_Open_Display s = snd (open_speaker_display s)"
| "handle Close_Display s = on_speaker_display_close s"
| "handle After_Fires s =
     (if 0 < after_queue s then snd (update_timer (s\<lparr>after_queue := after_queue s - 1\<rparr>)) else s)"

fun run :: "event list \<Rightarrow> app \<Rightarrow> app" where
  "run [] s = s"
| "run (e # es) s = run es (handle e s)"

text \<open>\<open>n\<close> executions of \<open>_update_timer\<close> in a row.\<close>

fun ticks :: "nat \<Rightarrow> app \<Rightarrow> app" where
  "ticks 0 s = s"
| "ticks (Suc n) s = ticks n (snd (update_timer s))"

section \<open>The HTTP handler\<close>









section \<open>Reading a formatted time back\<close>

text \<open>
  The value of a string of decimal digits, to state what the digits that
  \<open>_display_time\<close> prints stand for.
\<close>

definition digit_value :: "char \<Rightarrow> nat" where
  "digit_value c = of_char c - 48"

definition dec_value :: "string \<Rightarrow> nat" where
  "dec_value ds = foldl (\<lambda>a c. 10 * a + digit_value c) 0 ds"

section \<open>Example sessions\<close>

text \<open>
  Concrete sessions of the application, used where a statement is evaluated:
  a speaker "A" with 1:05 is added to the empty roster (which loads it), the
  timer is started, and then stopped.
\<close>

definition add_A :: event where
  "add_A = Press_Add_Update None ''A'' ''T'' [] (Some 1) (Some 5)"

definition loaded :: app where
  "loaded = run [add_A] init_app"

definition started :: app where
  "started = run [add_A, Press_Start] init_app"

definition paused :: app where
  "paused = run [add_A, Press_Start, Press_Stop] init_app"

text \<open>
  Further sessions. A second speaker "B" with 0:30 is added and "A", the
  current speaker, is removed, which leaves a roster with no speaker loaded.
  A speaker "C" with 0:01 is added to the empty roster and the timer is started.
  While the timer runs on "A", the user selects "A" in the list box and presses
  ADD / UPDATE SPEAKER with the time changed to 2:00.
\<close>

definition add_B :: event where
  "add_B = Press_Add_Update None ''B'' ''S'' [] (Some 0) (Some 30)"

definition unloaded :: app where
  "unloaded = run [add_A, add_B, Press_Remove (Some 0) True] init_app"

definition add_C :: event where
  "add_C = Press_Add_Update None ''C'' ''S'' [] (Some 0) (Some 1)"

definition at_zero :: app where
  "at_zero = run [add_C, Press_Start] init_app"

definition update_A :: event where
  "update_A = Press_Add_Update (Some 0) ''A'' ''T'' [] (Some 2) (Some 0)"

definition updated_while_running :: app where
  "updated_while_running = run [add_A, Press_Start, Roster_Select (Some 0), update_A] init_app"

text \<open>A speaker "Z" with 0:00 is added to the empty roster, which loads it.\<close>

definition add_Z :: event where
  "add_Z = Press_Add_Update None ''Z'' ''S'' [] (Some 0) (Some 0)"

definition zero_loaded :: app where
  "zero_loaded = run [add_Z] init_app"

section \<open>The snapshot of a state\<close>

text \<open>
  Stated from the data model: the snapshot that belongs to a state of the
  application. Its text is the formatted \<open>time_left\<close>, its names are those of
  the current speaker (\<open>"N/A"\<close> without one), and its flags are computed as the
  locked block computes them. The methods are compared with it below.
\<close>

definition fresh_snapshot :: "app \<Rightarrow> snapshot" where
  "fresh_snapshot s =
     \<lparr>time_text = time_format (time_left s),
      speaker_name =
        (if current_speaker_index s = - 1 \<or> speakers s = [] then ''N/A''
         else name (speakers s ! nat (current_speaker_index s))),
      speaker_segment =
        (if current_speaker_index s = - 1 \<or> speakers s = [] then ''N/A''
         else title (speakers s ! nat (current_speaker_index s))),
      is_warning = (0 < time_left s \<and> time_left s \<le> warning_threshold s),
      is_past_zero = (time_left s < 0)\<rparr>"

text \<open>The index of the current speaker is \<open>-1\<close> or a position of the roster.\<close>

definition index_ok :: "app \<Rightarrow> bool" where
  "index_ok s =
     (current_speaker_index s = - 1
      \<or> (0 \<le> current_speaker_index s \<and> current_speaker_index s < int (length (speakers s))))"

text \<open>The allocated time of a roster entry, in seconds.\<close>

definition allocation :: "speaker \<Rightarrow> int" where
  "allocation sp = minutes sp * 60 + seconds sp"

text \<open>
  A method that takes the state \<open>s\<close> to \<open>s'\<close> has republished when the shared
  dictionary holds the snapshot of \<open>s'\<close> and exactly that one write was added.
\<close>

definition republished :: "app \<Rightarrow> app \<Rightarrow> bool" where
  "republished s s' =
     (timer_state s' = fresh_snapshot s' \<and> publications s' = fresh_snapshot s' # publications s)"

section \<open>What holds in every session\<close>

text \<open>The check of \<open>_add_update_speaker\<close> on the times of an entry.\<close>

definition valid_entry :: "speaker \<Rightarrow> bool" where
  "valid_entry sp = (0 \<le> minutes sp \<and> minutes sp < 1000 \<and> 0 \<le> seconds sp \<and> seconds sp < 60)"

text \<open>
  The facts about the state that every event keeps: the index is \<open>-1\<close> or a
  position of the roster; every entry has passed the check; without a speaker
  the time is 0 and the timer is stopped; and when the current speaker has no
  time allocated, a stopped timer shows 0 and the STOP button is disabled.
\<close>

definition session_inv :: "app \<Rightarrow> bool" where
  "session_inv s =
     (index_ok s
      \<and> list_all valid_entry (speakers s)
      \<and> (current_speaker_index s = - 1 \<longrightarrow> time_left s = 0 \<and> \<not> running s)
      \<and> (current_speaker_index s \<noteq> - 1
           \<and> allocation (speakers s ! nat (current_speaker_index s)) = 0 \<longrightarrow>
             (\<not> running s \<longrightarrow> time_left s = 0) \<and> stop_button s = disabled))"

section \<open>Decimal digits and the two-digit format\<close>

lemma digit_cases: "d < 10 \<Longrightarrow> d = 0 \<or> d = 1 \<or> d = 2 \<or> d = 3 \<or> d = 4 \<or> d = 5 \<or> d = 6 \<or> d = 7 \<or> d = 8 \<or> d = (9::nat)"
  by arith

lemma digit_char_value: "d < 10 \<Longrightarrow> digit_value (digit_char d) = d"
  using digit_cases[of d] by (auto simp: digit_value_def digit_char_def)

lemma digit_char_is_digit: "d < 10 \<Longrightarrow> digit_char d \<in> set ''0123456789''"
  using digit_cases[of d] by (auto simp: digit_char_def)

lemma dec_value_snoc: "dec_value (ds @ [c]) = 10 * dec_value ds + digit_value c"
  by (simp add: dec_value_def)

lemma str_nat_small: "n < 10 \<Longrightarrow> str_nat n = [digit_char n]"
  by (subst str_nat.simps) simp

lemma str_nat_large: "10 \<le> n \<Longrightarrow> str_nat n = str_nat (n div 10) @ [digit_char (n mod 10)]"
  by (subst str_nat.simps) simp

lemma dec_value_str_nat: "dec_value (str_nat n) = n"
proof (induction n rule: str_nat.induct)
  case (1 n)
  show ?case
  proof (cases "n < 10")
    case True
    then show ?thesis by (simp add: str_nat_small dec_value_def digit_char_value)
  next
    case False
    then have "dec_value (str_nat n) = 10 * dec_value (str_nat (n div 10)) + digit_value (digit_char (n mod 10))"
      by (simp add: str_nat_large dec_value_snoc)
    with False 1 show ?thesis by (simp add: digit_char_value)
  qed
qed

lemma digits_str_nat: "set (str_nat n) \<subseteq> set ''0123456789''"
proof (induction n rule: str_nat.induct)
  case (1 n)
  show ?case
  proof (cases "n < 10")
    case True
    then show ?thesis using digit_char_is_digit[of n] by (simp add: str_nat_small)
  next
    case False
    have "n mod 10 < 10" by simp
    from digit_char_is_digit[OF this] False 1 show ?thesis by (simp add: str_nat_large)
  qed
qed

lemma length_str_nat_pos: "0 < length (str_nat n)"
  by (cases "n < 10") (simp_all add: str_nat_small str_nat_large)

lemma length_str_nat_two: "10 \<le> n \<Longrightarrow> n < 100 \<Longrightarrow> length (str_nat n) = 2"
  by (simp add: str_nat_large str_nat_small)

lemma length_str_nat_big: "100 \<le> n \<Longrightarrow> 2 < length (str_nat n)"
proof -
  assume h: "100 \<le> n"
  then have "10 \<le> n div 10" by simp
  then have "1 < length (str_nat (n div 10))"
    using length_str_nat_pos[of "n div 10 div 10"] by (simp add: str_nat_large)
  with h show ?thesis by (simp add: str_nat_large)
qed

lemma dec_value_zeros: "dec_value (replicate k CHR ''0'' @ ds) = dec_value ds"
  by (induction k) (simp_all add: dec_value_def digit_value_def)

lemma format_02d_value: "0 \<le> n \<Longrightarrow> int (dec_value (format_02d n)) = n"
  by (simp add: format_02d_def dec_value_zeros dec_value_str_nat)

lemma format_02d_digits: "0 \<le> n \<Longrightarrow> set (format_02d n) \<subseteq> set ''0123456789''"
  using digits_str_nat[of "nat n"] by (auto simp: format_02d_def)

lemma format_02d_length_two: "0 \<le> n \<Longrightarrow> (length (format_02d n) = 2) = (n < 100)"
proof -
  assume h: "0 \<le> n"
  consider "n < 10" | "10 \<le> n \<and> n < 100" | "100 \<le> n" by linarith
  then show ?thesis
  proof cases
    case 1
    with h show ?thesis by (simp add: format_02d_def str_nat_small)
  next
    case 2
    with h have "10 \<le> nat n" "nat n < 100" by linarith+
    then have "length (str_nat (nat n)) = 2" by (rule length_str_nat_two)
    with 2 h show ?thesis by (simp add: format_02d_def)
  next
    case 3
    with h have "100 \<le> nat n" by linarith
    then have "2 < length (str_nat (nat n))" by (rule length_str_nat_big)
    with 3 h show ?thesis by (simp add: format_02d_def)
  qed
qed

lemma format_02d_length_ge: "0 \<le> n \<Longrightarrow> 2 \<le> length (format_02d n)"
  by (simp add: format_02d_def)

lemma time_format_examples:
  "time_format 125 = ''02:05''" "time_format (- 65) = ''-01:05''" "time_format 0 = ''00:00''"
  by (simp_all add: time_format_def format_02d_def str_nat_small digit_char_def)

lemma minutes_two_digits: "(\<bar>t\<bar> div 60 < 100) = (\<bar>t::int\<bar> < 6000)"
proof -
  have "\<bar>t\<bar> = 60 * (\<bar>t\<bar> div 60) + \<bar>t\<bar> mod 60" by simp
  moreover have "0 \<le> \<bar>t\<bar> mod 60" "\<bar>t\<bar> mod 60 < 60" by simp_all
  ultimately show ?thesis by linarith
qed

section \<open>Evaluating a session\<close>

lemmas app_defs = init_app_def created_def default_timer_state_def load_speaker_details_def
  update_shared_timer_state_def display_time_def update_timer_def start_timer_def stop_timer_def
  reset_timer_def next_speaker_def add_update_speaker_def remove_speaker_def on_roster_select_def
  open_speaker_display_def on_speaker_display_close_def getitem_def delitem_def Let_def
  time_format_def format_02d_def str_nat_small str_nat_large digit_char_def

lemma loaded_eq:
  "loaded =
     \<lparr>time_left = 65, running = False, warning_threshold = 60,
      speakers = [\<lparr>name = ''A'', title = ''T'', notes_field = [], minutes = 1, seconds = 5\<rparr>],
      current_speaker_index = 0, speaker_display_window = False,
      timer_label = ''01:05'', warning_message_label = [],
      start_button = normal, stop_button = disabled,
      timer_state = \<lparr>time_text = ''01:05'', speaker_name = ''A'', speaker_segment = ''T'',
                      is_warning = False, is_past_zero = False\<rparr>,
      publications =
        [\<lparr>time_text = ''01:05'', speaker_name = ''A'', speaker_segment = ''T'',
          is_warning = False, is_past_zero = False\<rparr>,
         \<lparr>time_text = ''00:00'', speaker_name = ''N/A'', speaker_segment = ''N/A'',
          is_warning = False, is_past_zero = False\<rparr>],
      after_queue = 0\<rparr>"
  by (simp add: loaded_def add_A_def app_defs)

lemma started_eq:
  "started =
     \<lparr>time_left = 64, running = True, warning_threshold = 60,
      speakers = [\<lparr>name = ''A'', title = ''T'', notes_field = [], minutes = 1, seconds = 5\<rparr>],
      current_speaker_index = 0, speaker_display_window = False,
      timer_label = ''01:04'', warning_message_label = [],
      start_button = disabled, stop_button = normal,
      timer_state = \<lparr>time_text = ''01:04'', speaker_name = ''A'', speaker_segment = ''T'',
                      is_warning = False, is_past_zero = False\<rparr>,
      publications =
        [\<lparr>time_text = ''01:04'', speaker_name = ''A'', speaker_segment = ''T'',
          is_warning = False, is_past_zero = False\<rparr>,
         \<lparr>time_text = ''01:05'', speaker_name = ''A'', speaker_segment = ''T'',
          is_warning = False, is_past_zero = False\<rparr>,
         \<lparr>time_text = ''00:00'', speaker_name = ''N/A'', speaker_segment = ''N/A'',
          is_warning = False, is_past_zero = False\<rparr>],
      after_queue = 1\<rparr>"
  by (simp add: started_def add_A_def app_defs)

lemma paused_eq: "paused = started\<lparr>running := False, start_button := normal, stop_button := disabled\<rparr>"
proof -
  have "paused = handle Press_Stop started" by (simp add: paused_def started_def)
  then show ?thesis by (simp add: started_eq stop_timer_def)
qed

section \<open>The tick\<close>

lemma update_shared_countdown:
  "time_left (snd (update_shared_timer_state s)) = time_left s"
  "running (snd (update_shared_timer_state s)) = running s"
  "warning_threshold (snd (update_shared_timer_state s)) = warning_threshold s"
  by (simp_all add: update_shared_timer_state_def Let_def split: option.split prod.split)

lemma update_timer_running:
  assumes "running s"
  shows "time_left (snd (update_timer s)) = time_left s - 1"
    and "running (snd (update_timer s))"
proof -
  let ?s1 = "(display_time (s\<lparr>time_left := time_left s - 1\<rparr>))\<lparr>warning_message_label :=
      (if time_left (display_time (s\<lparr>time_left := time_left s - 1\<rparr>)) < 0 then ''TIME'' @ [CHR 0x27] @ ''S UP!''
       else if 0 \<le> time_left (display_time (s\<lparr>time_left := time_left s - 1\<rparr>))
               \<and> time_left (display_time (s\<lparr>time_left := time_left s - 1\<rparr>))
                  \<le> warning_threshold (display_time (s\<lparr>time_left := time_left s - 1\<rparr>)) then ''ROUND UP!''
       else [])\<rparr>"
  obtain out s2 where u: "update_shared_timer_state ?s1 = (out, s2)" by (cases "update_shared_timer_state ?s1")
  have tl: "time_left s2 = time_left s - 1" and rn: "running s2"
    using update_shared_countdown(1)[of ?s1] update_shared_countdown(2)[of ?s1] u assms
    by (simp_all add: display_time_def)
  have "snd (update_timer s) = s2 \<or> snd (update_timer s) = s2\<lparr>after_queue := Suc (after_queue s2)\<rparr>"
    using assms u by (cases out) (simp_all add: update_timer_def Let_def)
  with tl rn show "time_left (snd (update_timer s)) = time_left s - 1" "running (snd (update_timer s))"
    by auto
qed

lemma update_timer_stopped: "\<not> running s \<Longrightarrow> update_timer s = (Done, s)"
  by (simp add: update_timer_def)

lemma ticks_running: "running s \<Longrightarrow> time_left (ticks n s) = time_left s - int n \<and> running (ticks n s)"
proof (induction n arbitrary: s)
  case 0
  then show ?case by simp
next
  case (Suc n)
  from update_timer_running[OF Suc.prems] Suc.IH[of "snd (update_timer s)"]
  show ?case by simp
qed

lemma ticks_stopped: "\<not> running s \<Longrightarrow> ticks n s = s"
  by (induction n) (simp_all add: update_timer_stopped)

lemma after_fires_stopped:
  "\<not> running s \<Longrightarrow> time_left (run (replicate n After_Fires) s) = time_left s
     \<and> \<not> running (run (replicate n After_Fires) s)"
proof (induction n arbitrary: s)
  case 0
  then show ?case by simp
next
  case (Suc n)
  have "time_left (handle After_Fires s) = time_left s" "\<not> running (handle After_Fires s)"
    using Suc.prems by (simp_all add: update_timer_stopped)
  with Suc.IH[of "handle After_Fires s"] show ?case by simp
qed

section \<open>Publishing\<close>

lemma getitem_in_range: "0 \<le> i \<Longrightarrow> i < int (length xs) \<Longrightarrow> getitem xs i = Some (xs ! nat i)"
  by (simp add: getitem_def)

lemma update_shared_ok:
  assumes "index_ok s" and "timer_label s = time_format (time_left s)"
  shows "update_shared_timer_state s =
           (Done, s\<lparr>timer_state := fresh_snapshot s, publications := fresh_snapshot s # publications s\<rparr>)"
proof (cases "current_speaker_index s = - 1 \<or> speakers s = []")
  case True
  then show ?thesis using assms(2)
    by (auto simp: update_shared_timer_state_def fresh_snapshot_def Let_def)
next
  case False
  with assms(1) have r: "0 \<le> current_speaker_index s" "current_speaker_index s < int (length (speakers s))"
    by (auto simp: index_ok_def)
  from False assms(2) show ?thesis
    by (simp add: update_shared_timer_state_def fresh_snapshot_def Let_def getitem_in_range[OF r])
qed

lemma fresh_snapshot_cong:
  "time_left s' = time_left s \<Longrightarrow> warning_threshold s' = warning_threshold s
   \<Longrightarrow> speakers s' = speakers s \<Longrightarrow> current_speaker_index s' = current_speaker_index s
   \<Longrightarrow> fresh_snapshot s' = fresh_snapshot s"
  by (simp add: fresh_snapshot_def)

section \<open>What each method leaves\<close>

lemma load_in_range:
  assumes "0 \<le> i" and "i < int (length (speakers s))"
  shows "load_speaker_details i s =
           (let s1 = s\<lparr>current_speaker_index := i,
                        time_left := allocation (speakers s ! nat i),
                        timer_label := time_format (allocation (speakers s ! nat i)),
                        warning_message_label := [], start_button := normal, stop_button := disabled\<rparr>
            in (Done, s1\<lparr>timer_state := fresh_snapshot s1,
                          publications := fresh_snapshot s1 # publications s\<rparr>))"
proof -
  define s1 where "s1 = s\<lparr>current_speaker_index := i,
                        time_left := allocation (speakers s ! nat i),
                        timer_label := time_format (allocation (speakers s ! nat i)),
                        warning_message_label := [], start_button := normal, stop_button := disabled\<rparr>"
  have ok: "index_ok s1" and lab: "timer_label s1 = time_format (time_left s1)"
    using assms by (simp_all add: s1_def index_ok_def)
  have "load_speaker_details i s = update_shared_timer_state s1"
    using assms by (simp add: load_speaker_details_def s1_def display_time_def allocation_def Let_def)
  also have "\<dots> = (Done, s1\<lparr>timer_state := fresh_snapshot s1,
                                publications := fresh_snapshot s1 # publications s1\<rparr>)"
    by (rule update_shared_ok[OF ok lab])
  finally show ?thesis
    by (simp add: s1_def Let_def)
qed

lemma load_out_of_range:
  assumes "i < 0 \<or> int (length (speakers s)) \<le> i"
  shows "load_speaker_details i s =
           (let s1 = s\<lparr>current_speaker_index := - 1, time_left := 0,
                        timer_label := time_format 0,
                        warning_message_label := [], start_button := normal, stop_button := disabled\<rparr>
            in (Done, s1\<lparr>timer_state := fresh_snapshot s1,
                          publications := fresh_snapshot s1 # publications s\<rparr>))"
proof -
  define s1 where "s1 = s\<lparr>current_speaker_index := - 1, time_left := 0,
                        timer_label := time_format 0,
                        warning_message_label := [], start_button := normal, stop_button := disabled\<rparr>"
  have ok: "index_ok s1" and lab: "timer_label s1 = time_format (time_left s1)"
    by (simp_all add: s1_def index_ok_def)
  have "load_speaker_details i s = update_shared_timer_state s1"
    using assms by (auto simp: load_speaker_details_def s1_def display_time_def)
  also have "\<dots> = (Done, s1\<lparr>timer_state := fresh_snapshot s1,
                                publications := fresh_snapshot s1 # publications s1\<rparr>)"
    by (rule update_shared_ok[OF ok lab])
  finally show ?thesis
    by (simp add: s1_def Let_def)
qed

lemma reset_in_range:
  assumes "0 \<le> current_speaker_index s" and "current_speaker_index s < int (length (speakers s))"
  shows "reset_timer s =
           (let s1 = s\<lparr>running := False, start_button := normal, stop_button := disabled,
                        time_left := allocation (speakers s ! nat (current_speaker_index s)),
                        timer_label := time_format (allocation (speakers s ! nat (current_speaker_index s))),
                        warning_message_label := []\<rparr>
            in (Done, s1\<lparr>timer_state := fresh_snapshot s1,
                          publications := fresh_snapshot s1 # publications s\<rparr>))"
proof -
  define s1 where "s1 = s\<lparr>running := False, start_button := normal, stop_button := disabled,
                        time_left := allocation (speakers s ! nat (current_speaker_index s)),
                        timer_label := time_format (allocation (speakers s ! nat (current_speaker_index s))),
                        warning_message_label := []\<rparr>"
  have ok: "index_ok s1" and lab: "timer_label s1 = time_format (time_left s1)"
    using assms by (simp_all add: s1_def index_ok_def)
  have ne: "speakers s \<noteq> []" "current_speaker_index s \<noteq> - 1" using assms by auto
  have "reset_timer s = update_shared_timer_state s1"
    using assms ne
    by (simp add: reset_timer_def stop_timer_def s1_def display_time_def allocation_def Let_def
        getitem_in_range[OF assms])
  also have "\<dots> = (Done, s1\<lparr>timer_state := fresh_snapshot s1,
                                publications := fresh_snapshot s1 # publications s1\<rparr>)"
    by (rule update_shared_ok[OF ok lab])
  finally show ?thesis
    by (simp add: s1_def Let_def)
qed

lemma reset_without_speaker:
  assumes "current_speaker_index s = - 1 \<or> speakers s = []
           \<or> int (length (speakers s)) \<le> current_speaker_index s"
  shows "reset_timer s =
           (let s1 = s\<lparr>running := False, current_speaker_index := - 1, time_left := 0,
                        timer_label := time_format 0, warning_message_label := [],
                        start_button := normal, stop_button := disabled\<rparr>
            in (Done, s1\<lparr>timer_state := fresh_snapshot s1,
                          publications := fresh_snapshot s1 # publications s\<rparr>))"
proof -
  define s1 where "s1 = s\<lparr>running := False, current_speaker_index := - 1, time_left := 0,
                        timer_label := time_format 0, warning_message_label := [],
                        start_button := normal, stop_button := disabled\<rparr>"
  have ok: "index_ok s1" and lab: "timer_label s1 = time_format (time_left s1)"
    by (simp_all add: s1_def index_ok_def)
  have "reset_timer s = update_shared_timer_state s1"
    using assms by (auto simp: reset_timer_def stop_timer_def s1_def display_time_def Let_def)
  also have "\<dots> = (Done, s1\<lparr>timer_state := fresh_snapshot s1,
                                publications := fresh_snapshot s1 # publications s1\<rparr>)"
    by (rule update_shared_ok[OF ok lab])
  finally show ?thesis
    by (simp add: s1_def Let_def)
qed

lemma update_timer_running_eq:
  assumes "running s" and "index_ok s"
  shows "update_timer s =
           (let s1 = s\<lparr>time_left := time_left s - 1,
                        timer_label := time_format (time_left s - 1),
                        warning_message_label :=
                          (if time_left s - 1 < 0 then ''TIME'' @ [CHR 0x27] @ ''S UP!''
                           else if time_left s - 1 \<le> warning_threshold s then ''ROUND UP!''
                           else [])\<rparr>
            in (Done, s1\<lparr>timer_state := fresh_snapshot s1,
                          publications := fresh_snapshot s1 # publications s,
                          after_queue := Suc (after_queue s)\<rparr>))"
proof -
  define s1 where "s1 = s\<lparr>time_left := time_left s - 1,
                        timer_label := time_format (time_left s - 1),
                        warning_message_label :=
                          (if time_left s - 1 < 0 then ''TIME'' @ [CHR 0x27] @ ''S UP!''
                           else if time_left s - 1 \<le> warning_threshold s then ''ROUND UP!''
                           else [])\<rparr>"
  have ok: "index_ok s1" and lab: "timer_label s1 = time_format (time_left s1)"
    using assms(2) by (simp_all add: s1_def index_ok_def)
  have "update_timer s = (case update_shared_timer_state s1 of
               (Done, s2) \<Rightarrow> (Done, s2\<lparr>after_queue := Suc (after_queue s2)\<rparr>)
             | raised \<Rightarrow> raised)"
    using assms(1) by (auto simp: update_timer_def Let_def s1_def display_time_def)
  also have "\<dots> = (Done, s1\<lparr>timer_state := fresh_snapshot s1,
                                publications := fresh_snapshot s1 # publications s1,
                                after_queue := Suc (after_queue s1)\<rparr>)"
    by (simp add: update_shared_ok[OF ok lab])
  finally show ?thesis
    by (simp add: s1_def Let_def)
qed

lemma load_keeps_running: "running (snd (load_speaker_details i s)) = running s"
proof (cases "0 \<le> i \<and> i < int (length (speakers s))")
  case True
  then have "0 \<le> i" "i < int (length (speakers s))" by simp_all
  from load_in_range[OF this] show ?thesis by (simp add: Let_def)
next
  case False
  then have "i < 0 \<or> int (length (speakers s)) \<le> i" by auto
  from load_out_of_range[OF this] show ?thesis by (simp add: Let_def)
qed

section \<open>Starting\<close>

lemma init_app_eq:
  "init_app =
     \<lparr>time_left = 0, running = False, warning_threshold = 60, speakers = [],
      current_speaker_index = - 1, speaker_display_window = False,
      timer_label = ''00:00'', warning_message_label = [],
      start_button = normal, stop_button = disabled,
      timer_state = default_timer_state, publications = [default_timer_state], after_queue = 0\<rparr>"
  by (simp add: app_defs)

lemma start_while_running: "running s \<Longrightarrow> start_timer s = (Done, s)"
  by (simp add: start_timer_def)

lemma start_no_speaker:
  "\<not> running s \<Longrightarrow> current_speaker_index s = - 1 \<Longrightarrow> speakers s = []
   \<Longrightarrow> start_timer s = (Dialog No_Speaker, s)"
  by (simp add: start_timer_def)

lemma start_zero_allocation:
  assumes "\<not> running s" and "0 \<le> current_speaker_index s"
    and "current_speaker_index s < int (length (speakers s))"
    and "time_left s = 0"
    and "minutes (speakers s ! nat (current_speaker_index s)) = 0"
    and "seconds (speakers s ! nat (current_speaker_index s)) = 0"
  shows "start_timer s = (Dialog Invalid_Time_Zero, s)"
proof -
  have ne: "speakers s \<noteq> []" "current_speaker_index s \<noteq> - 1" using assms(2,3) by auto
  show ?thesis
    using assms(1,4,5,6) ne by (simp add: start_timer_def getitem_in_range[OF assms(2,3)])
qed

lemma start_proceeds:
  assumes "\<not> running s" and "0 \<le> current_speaker_index s"
    and "current_speaker_index s < int (length (speakers s))"
    and "time_left s \<noteq> 0 \<or> minutes (speakers s ! nat (current_speaker_index s)) \<noteq> 0
         \<or> seconds (speakers s ! nat (current_speaker_index s)) \<noteq> 0"
  shows "start_timer s =
           (let s1 = s\<lparr>running := True, time_left := time_left s - 1,
                        timer_label := time_format (time_left s - 1),
                        warning_message_label :=
                          (if time_left s - 1 < 0 then ''TIME'' @ [CHR 0x27] @ ''S UP!''
                           else if time_left s - 1 \<le> warning_threshold s then ''ROUND UP!''
                           else [])\<rparr>
            in (Done, s1\<lparr>timer_state := fresh_snapshot s1,
                          publications := fresh_snapshot s1 # publications s,
                          after_queue := Suc (after_queue s),
                          start_button := disabled, stop_button := normal\<rparr>))"
proof -
  have ne: "speakers s \<noteq> []" "current_speaker_index s \<noteq> - 1" using assms(2,3) by auto
  have ok: "index_ok (s\<lparr>running := True\<rparr>)" using assms(2,3) by (simp add: index_ok_def)
  have "start_timer s =
          (case update_timer (s\<lparr>running := True\<rparr>) of
             (Done, s3) \<Rightarrow> (Done, s3\<lparr>start_button := disabled, stop_button := normal\<rparr>)
           | raised \<Rightarrow> raised)"
    using assms(1,4) ne by (auto simp: start_timer_def getitem_in_range[OF assms(2,3)])
  then show ?thesis
    by (simp add: update_timer_running_eq[OF _ ok] Let_def)
qed

lemma start_after_load:
  assumes "\<not> running s" and "current_speaker_index s = - 1" and "speakers s \<noteq> []"
  shows "start_timer s = start_timer (snd (load_speaker_details 0 s))"
proof -
  have r: "(0::int) \<le> 0" "0 < int (length (speakers s))" using assms(3) by simp_all
  note l = load_in_range[OF r]
  show ?thesis
    using assms by (simp add: start_timer_def[of s]) (simp add: l Let_def start_timer_def)
qed

lemma init_app_fields:
  "time_left init_app = 0" "\<not> running init_app" "current_speaker_index init_app = - 1"
  "speakers init_app = []" "publications init_app = [default_timer_state]"
  "warning_threshold init_app = 60" "after_queue init_app = 0"
  by (simp_all add: init_app_eq)

lemma loaded_fields:
  "time_left loaded = 65" "\<not> running loaded" "current_speaker_index loaded = 0"
  "speakers loaded = [\<lparr>name = ''A'', title = ''T'', notes_field = [], minutes = 1, seconds = 5\<rparr>]"
  "warning_threshold loaded = 60" "after_queue loaded = 0" "start_button loaded = normal"
  "length (publications loaded) = 2"
  by (simp_all add: loaded_eq)

lemma started_fields:
  "time_left started = 64" "running started" "current_speaker_index started = 0"
  "speakers started = [\<lparr>name = ''A'', title = ''T'', notes_field = [], minutes = 1, seconds = 5\<rparr>]"
  "warning_threshold started = 60" "after_queue started = 1" "stop_button started = normal"
  "length (publications started) = 3"
  by (simp_all add: started_eq)

lemma paused_fields:
  "time_left paused = 64" "\<not> running paused" "current_speaker_index paused = 0"
  "speakers paused = [\<lparr>name = ''A'', title = ''T'', notes_field = [], minutes = 1, seconds = 5\<rparr>]"
  "warning_threshold paused = 60" "after_queue paused = 1" "start_button paused = normal"
  "length (publications paused) = 3"
  by (simp_all add: paused_eq started_eq)

lemma unloaded_fields:
  "time_left unloaded = 0" "\<not> running unloaded" "current_speaker_index unloaded = - 1"
  "speakers unloaded = [\<lparr>name = ''B'', title = ''S'', notes_field = [], minutes = 0, seconds = 30\<rparr>]"
  "warning_threshold unloaded = 60" "after_queue unloaded = 0" "start_button unloaded = normal"
  "length (publications unloaded) = 3"
  by (simp_all add: unloaded_def add_A_def add_B_def app_defs)

lemma at_zero_eq:
  "at_zero =
     \<lparr>time_left = 0, running = True, warning_threshold = 60,
      speakers = [\<lparr>name = ''C'', title = ''S'', notes_field = [], minutes = 0, seconds = 1\<rparr>],
      current_speaker_index = 0, speaker_display_window = False,
      timer_label = ''00:00'', warning_message_label = ''ROUND UP!'',
      start_button = disabled, stop_button = normal,
      timer_state = \<lparr>time_text = ''00:00'', speaker_name = ''C'', speaker_segment = ''S'',
                      is_warning = False, is_past_zero = False\<rparr>,
      publications =
        [\<lparr>time_text = ''00:00'', speaker_name = ''C'', speaker_segment = ''S'',
          is_warning = False, is_past_zero = False\<rparr>,
         \<lparr>time_text = ''00:01'', speaker_name = ''C'', speaker_segment = ''S'',
          is_warning = True, is_past_zero = False\<rparr>,
         \<lparr>time_text = ''00:00'', speaker_name = ''N/A'', speaker_segment = ''N/A'',
          is_warning = False, is_past_zero = False\<rparr>],
      after_queue = 1\<rparr>"
  by (simp add: at_zero_def add_C_def app_defs)

lemma updated_while_running_eq:
  "updated_while_running =
     \<lparr>time_left = 120, running = True, warning_threshold = 60,
      speakers = [\<lparr>name = ''A'', title = ''T'', notes_field = [], minutes = 2, seconds = 0\<rparr>],
      current_speaker_index = 0, speaker_display_window = False,
      timer_label = ''02:00'', warning_message_label = [],
      start_button = normal, stop_button = disabled,
      timer_state = \<lparr>time_text = ''02:00'', speaker_name = ''A'', speaker_segment = ''T'',
                      is_warning = False, is_past_zero = False\<rparr>,
      publications =
        [\<lparr>time_text = ''02:00'', speaker_name = ''A'', speaker_segment = ''T'',
          is_warning = False, is_past_zero = False\<rparr>,
         \<lparr>time_text = ''01:04'', speaker_name = ''A'', speaker_segment = ''T'',
          is_warning = False, is_past_zero = False\<rparr>,
         \<lparr>time_text = ''01:05'', speaker_name = ''A'', speaker_segment = ''T'',
          is_warning = False, is_past_zero = False\<rparr>,
         \<lparr>time_text = ''00:00'', speaker_name = ''N/A'', speaker_segment = ''N/A'',
          is_warning = False, is_past_zero = False\<rparr>],
      after_queue = 1\<rparr>"
  by (simp add: updated_while_running_def add_A_def update_A_def app_defs)

lemma published_flags:
  assumes "update_shared_timer_state s = (Done, s')"
  shows "is_warning (timer_state s') = (0 < time_left s \<and> time_left s \<le> warning_threshold s)"
    and "is_past_zero (timer_state s') = (time_left s < 0)"
    and "\<not> (is_warning (timer_state s') \<and> is_past_zero (timer_state s'))"
  using assms
  by (auto simp: update_shared_timer_state_def Let_def split: if_splits option.splits)

lemma update_timer_done:
  assumes "running s" and "update_timer s = (Done, s')"
  shows "time_left s' = time_left s - 1" and "running s'" and "after_queue s' = Suc (after_queue s)"
  using assms
  by (auto simp: update_timer_def update_shared_timer_state_def display_time_def Let_def
      split: if_splits option.splits prod.splits outcome.splits)

lemma start_done_with_speaker:
  assumes "\<not> running s" and "current_speaker_index s \<noteq> - 1" and "fst (start_timer s) = Done"
  shows "\<exists>s3. update_timer (s\<lparr>running := True\<rparr>) = (Done, s3)
              \<and> snd (start_timer s) = s3\<lparr>start_button := disabled, stop_button := normal\<rparr>"
proof -
  obtain out s3 where u: "update_timer (s\<lparr>running := True\<rparr>) = (out, s3)"
    by (cases "update_timer (s\<lparr>running := True\<rparr>)")
  show ?thesis
    using assms u
    by (cases out)
       (auto simp: start_timer_def split: if_splits option.splits)
qed

section \<open>Every event keeps the session facts\<close>

lemma session_inv_cong:
  assumes "time_left s' = time_left s" and "running s' = running s"
    and "speakers s' = speakers s" and "current_speaker_index s' = current_speaker_index s"
    and "stop_button s' = stop_button s"
  shows "session_inv s' = session_inv s"
  using assms by (simp add: session_inv_def index_ok_def)

lemma valid_entry_zero: "valid_entry sp \<Longrightarrow> (allocation sp = 0) = (minutes sp = 0 \<and> seconds sp = 0)"
  unfolding valid_entry_def allocation_def by arith

lemma inv_init: "session_inv init_app"
  by (simp add: session_inv_def index_ok_def init_app_eq)

lemma inv_update_shared:
  assumes "session_inv s"
  shows "session_inv (snd (update_shared_timer_state s))"
proof -
  have "session_inv (snd (update_shared_timer_state s)) = session_inv s"
    by (rule session_inv_cong)
       (simp_all add: update_shared_timer_state_def Let_def split: option.split prod.split)
  with assms show ?thesis by simp
qed

lemma inv_load:
  assumes "list_all valid_entry (speakers s)" and "0 \<le> i" and "i < int (length (speakers s))"
  shows "session_inv (snd (load_speaker_details i s))"
  using assms
  by (simp add: load_in_range[OF assms(2,3)] Let_def session_inv_def index_ok_def)

lemma inv_reset:
  assumes "session_inv s"
  shows "session_inv (snd (reset_timer s))"
proof (cases "current_speaker_index s = - 1")
  case True
  then have "current_speaker_index s = - 1 \<or> speakers s = []
           \<or> int (length (speakers s)) \<le> current_speaker_index s" by simp
  from reset_without_speaker[OF this] assms show ?thesis
    by (simp add: Let_def session_inv_def index_ok_def)
next
  case False
  with assms have "0 \<le> current_speaker_index s" "current_speaker_index s < int (length (speakers s))"
    by (simp_all add: session_inv_def index_ok_def)
  from reset_in_range[OF this] assms False show ?thesis
    by (simp add: Let_def session_inv_def index_ok_def)
qed

lemma inv_stop:
  assumes "session_inv s" and "stop_button s = normal"
  shows "session_inv (stop_timer s)"
  using assms by (auto simp: session_inv_def index_ok_def stop_timer_def)

lemma inv_update_timer:
  assumes "session_inv s"
  shows "session_inv (snd (update_timer s))"
proof (cases "running s")
  case False
  with assms show ?thesis by (simp add: update_timer_stopped)
next
  case True
  from assms have ok: "index_ok s" by (simp add: session_inv_def)
  from update_timer_running_eq[OF True ok] assms True show ?thesis
    by (auto simp: Let_def session_inv_def index_ok_def)
qed

lemma valid_current:
  assumes "session_inv s" and "current_speaker_index s \<noteq> - 1"
  shows "0 \<le> current_speaker_index s" and "current_speaker_index s < int (length (speakers s))"
    and "valid_entry (speakers s ! nat (current_speaker_index s))"
proof -
  from assms show r: "0 \<le> current_speaker_index s" "current_speaker_index s < int (length (speakers s))"
    by (simp_all add: session_inv_def index_ok_def)
  then have "nat (current_speaker_index s) < length (speakers s)" by simp
  moreover from assms(1) have "list_all valid_entry (speakers s)" by (simp add: session_inv_def)
  ultimately show "valid_entry (speakers s ! nat (current_speaker_index s))"
    by (simp add: list_all_length)
qed

lemma inv_start_with_speaker:
  assumes "session_inv s" and "\<not> running s" and "current_speaker_index s \<noteq> - 1"
  shows "session_inv (snd (start_timer s))"
proof -
  note v = valid_current[OF assms(1,3)]
  show ?thesis
  proof (cases "time_left s = 0 \<and> minutes (speakers s ! nat (current_speaker_index s)) = 0
                \<and> seconds (speakers s ! nat (current_speaker_index s)) = 0")
    case True
    then have "start_timer s = (Dialog Invalid_Time_Zero, s)"
      by (intro start_zero_allocation[OF assms(2) v(1,2)]) simp_all
    with assms(1) show ?thesis by simp
  next
    case False
    then have c: "time_left s \<noteq> 0 \<or> minutes (speakers s ! nat (current_speaker_index s)) \<noteq> 0
         \<or> seconds (speakers s ! nat (current_speaker_index s)) \<noteq> 0" by auto
    have nz: "allocation (speakers s ! nat (current_speaker_index s)) \<noteq> 0"
    proof
      assume z: "allocation (speakers s ! nat (current_speaker_index s)) = 0"
      with assms have "time_left s = 0" by (simp add: session_inv_def)
      moreover from z v(3) have "minutes (speakers s ! nat (current_speaker_index s)) = 0
          \<and> seconds (speakers s ! nat (current_speaker_index s)) = 0"
        by (simp add: valid_entry_zero)
      ultimately show False using c by simp
    qed
    from start_proceeds[OF assms(2) v(1,2) c] assms(1,3) nz show ?thesis
      by (simp add: Let_def session_inv_def index_ok_def)
  qed
qed

lemma inv_start:
  assumes "session_inv s"
  shows "session_inv (snd (start_timer s))"
proof (cases "running s")
  case True
  with assms show ?thesis by (simp add: start_while_running)
next
  case nr: False
  show ?thesis
  proof (cases "current_speaker_index s = - 1")
    case False
    from inv_start_with_speaker[OF assms nr False] show ?thesis .
  next
    case True
    show ?thesis
    proof (cases "speakers s = []")
      case empty: True
      with assms nr True show ?thesis by (simp add: start_no_speaker)
    next
      case False
      let ?s1 = "snd (load_speaker_details 0 s)"
      have r: "(0::int) \<le> 0" "0 < int (length (speakers s))" using False by simp_all
      from assms have va: "list_all valid_entry (speakers s)" by (simp add: session_inv_def)
      have i1: "session_inv ?s1" by (rule inv_load[OF va r])
      have f: "\<not> running ?s1" "current_speaker_index ?s1 \<noteq> - 1"
        using nr by (simp_all add: load_in_range[OF r] Let_def)
      have "start_timer s = start_timer ?s1" by (rule start_after_load[OF nr True False])
      with inv_start_with_speaker[OF i1 f] show ?thesis by simp
    qed
  qed
qed

lemma inv_next:
  assumes "session_inv s"
  shows "session_inv (snd (next_speaker s))"
proof (cases "speakers s = []")
  case True
  with assms show ?thesis by (simp add: next_speaker_def)
next
  case False
  from assms have va: "list_all valid_entry (speakers s)" and ok: "index_ok s"
    by (simp_all add: session_inv_def)
  define j where "j = (if current_speaker_index s + 1 \<ge> int (length (speakers s)) then 0
                       else current_speaker_index s + 1)"
  define s2 where "s2 = (stop_timer s)\<lparr>current_speaker_index := j\<rparr>"
  have e: "next_speaker s = load_speaker_details j s2"
    using False by (simp add: next_speaker_def Let_def stop_timer_def j_def s2_def)
  have r: "0 \<le> j" "j < int (length (speakers s2))"
    using ok False by (auto simp: j_def s2_def stop_timer_def index_ok_def)
  have "list_all valid_entry (speakers s2)" using va by (simp add: s2_def stop_timer_def)
  from inv_load[OF this r] show ?thesis by (simp add: e)
qed

lemma inv_roster_select:
  assumes "session_inv s"
  shows "session_inv (snd (on_roster_select sel s))"
proof (cases sel)
  case None
  with assms show ?thesis by (simp add: on_roster_select_def)
next
  case (Some i)
  show ?thesis
  proof (cases "i < length (speakers s) \<and> \<not> running s \<and> current_speaker_index s \<noteq> int i")
    case False
    with assms Some show ?thesis by (auto simp: on_roster_select_def)
  next
    case True
    then have r: "0 \<le> int i" "int i < int (length (speakers s))" by simp_all
    from assms have va: "list_all valid_entry (speakers s)" by (simp add: session_inv_def)
    have "snd (on_roster_select sel s) = snd (load_speaker_details (int i) s)"
      using True Some by (simp add: on_roster_select_def load_in_range[OF r] Let_def)
    with inv_load[OF va r] show ?thesis by simp
  qed
qed

lemma inv_open_display:
  assumes "session_inv s"
  shows "session_inv (snd (open_speaker_display s))"
proof (cases "speaker_display_window s")
  case True
  with assms show ?thesis by (simp add: open_speaker_display_def)
next
  case False
  have "session_inv (s\<lparr>speaker_display_window := True\<rparr>) = session_inv s"
    by (rule session_inv_cong) simp_all
  with assms inv_update_shared[of "s\<lparr>speaker_display_window := True\<rparr>"] False
  show ?thesis by (simp add: open_speaker_display_def)
qed

lemma list_all_update:
  "list_all P xs \<Longrightarrow> P x \<Longrightarrow> list_all P (xs[i := x])"
  by (induction xs arbitrary: i) (auto split: nat.split)

lemma list_all_delitem: "list_all P xs \<Longrightarrow> list_all P (delitem xs i)"
proof -
  assume "list_all P xs"
  then have "\<forall>x \<in> set xs. P x" by (simp add: list_all_iff)
  moreover have "set (delitem xs i) \<subseteq> set xs"
    using set_take_subset[of i xs] set_drop_subset[of "Suc i" xs] by (auto simp: delitem_def)
  ultimately show ?thesis by (auto simp: list_all_iff)
qed

lemma length_delitem: "i < length xs \<Longrightarrow> length (delitem xs i) = length xs - 1"
  by (simp add: delitem_def)

lemma nth_delitem_before: "j < i \<Longrightarrow> i < length xs \<Longrightarrow> delitem xs i ! j = xs ! j"
  by (simp add: delitem_def nth_append)

lemma nth_delitem_after: "i \<le> j \<Longrightarrow> Suc j < length xs \<Longrightarrow> delitem xs i ! j = xs ! Suc j"
  by (simp add: delitem_def nth_append min_def)

lemma inv_add_update:
  assumes "session_inv s"
  shows "session_inv (snd (add_update_speaker sel n t no m sec s))"
proof (cases "n \<noteq> [] \<and> (\<exists>mv sv. m = Some mv \<and> sec = Some sv
                \<and> 0 \<le> mv \<and> mv < 1000 \<and> 0 \<le> sv \<and> sv < 60)")
  case False
  then have "snd (add_update_speaker sel n t no m sec s) = s"
    by (cases m; cases sec) (auto simp: add_update_speaker_def)
  with assms show ?thesis by simp
next
  case True
  then obtain mv sv where ms: "m = Some mv" "sec = Some sv" and ne: "n \<noteq> []"
    and rg: "0 \<le> mv" "mv < 1000" "0 \<le> sv" "sv < 60" by blast
  define entry where "entry = \<lparr>name = n, title = t, notes_field = no, minutes = mv, seconds = sv\<rparr>"
  have ve: "valid_entry entry" using rg by (simp add: valid_entry_def entry_def)
  from assms have va: "list_all valid_entry (speakers s)" and ok: "index_ok s"
    by (simp_all add: session_inv_def)
  show ?thesis
  proof (cases sel)
    case None
    define s1 where "s1 = s\<lparr>speakers := speakers s @ [entry]\<rparr>"
    have va1: "list_all valid_entry (speakers s1)" using va ve by (simp add: s1_def)
    show ?thesis
    proof (cases "current_speaker_index s = - 1")
      case True
      have r: "(0::int) \<le> 0" "0 < int (length (speakers s1))" by (simp_all add: s1_def)
      have "add_update_speaker sel n t no m sec s = load_speaker_details 0 s1"
        using None ms ne rg True by (simp add: add_update_speaker_def Let_def s1_def entry_def)
      with inv_load[OF va1 r] show ?thesis by simp
    next
      case False
      with ok have r: "0 \<le> current_speaker_index s" "current_speaker_index s < int (length (speakers s))"
        by (simp_all add: index_ok_def)
      then have nth: "speakers s1 ! nat (current_speaker_index s) = speakers s ! nat (current_speaker_index s)"
        by (simp add: s1_def nth_append)
      have e: "add_update_speaker sel n t no m sec s = (Done, s1)"
        using None ms ne rg False by (simp add: add_update_speaker_def Let_def s1_def entry_def)
      have "session_inv s1"
        using assms va1 False r nth
        by (simp add: session_inv_def index_ok_def) (simp add: s1_def)
      with e show ?thesis by simp
    qed
  next
    case (Some i)
    show ?thesis
    proof (cases "i < length (speakers s)")
      case False
      then have "add_update_speaker sel n t no m sec s = (IndexError, s)"
        using Some ms ne rg by (simp add: add_update_speaker_def Let_def)
      with assms show ?thesis by simp
    next
      case True
      define s1 where "s1 = s\<lparr>speakers := (speakers s)[i := entry]\<rparr>"
      have va1: "list_all valid_entry (speakers s1)"
        using list_all_update[OF va ve] by (simp add: s1_def)
      show ?thesis
      proof (cases "current_speaker_index s = int i")
        case same: True
        have r: "0 \<le> int i" "int i < int (length (speakers s1))" using True by (simp_all add: s1_def)
        have "add_update_speaker sel n t no m sec s = load_speaker_details (int i) s1"
          using Some ms ne rg True same by (simp add: add_update_speaker_def Let_def s1_def entry_def)
        with inv_load[OF va1 r] show ?thesis by simp
      next
        case False
        have e: "add_update_speaker sel n t no m sec s = (Done, s1)"
          using Some ms ne rg True False by (simp add: add_update_speaker_def Let_def s1_def entry_def)
        have nth: "current_speaker_index s \<noteq> - 1 \<Longrightarrow>
            speakers s1 ! nat (current_speaker_index s) = speakers s ! nat (current_speaker_index s)"
        proof -
          assume "current_speaker_index s \<noteq> - 1"
          with ok have "0 \<le> current_speaker_index s" by (simp add: index_ok_def)
          with False have "i \<noteq> nat (current_speaker_index s)" by auto
          then show ?thesis by (simp add: s1_def)
        qed
        have "session_inv s1"
          using assms va1 nth
          by (simp add: session_inv_def index_ok_def) (auto simp: s1_def)
        with e show ?thesis by simp
      qed
    qed
  qed
qed

lemma inv_remove:
  assumes "session_inv s"
  shows "session_inv (snd (remove_speaker sel yes s))"
proof (cases "\<exists>i. sel = Some i \<and> i < length (speakers s) \<and> yes")
  case False
  then have "snd (remove_speaker sel yes s) = s"
    by (cases sel) (auto simp: remove_speaker_def)
  with assms show ?thesis by simp
next
  case True
  then obtain i where sel: "sel = Some i" and i: "i < length (speakers s)" and yes: "yes" by blast
  from assms have va: "list_all valid_entry (speakers s)" and ok: "index_ok s"
    by (simp_all add: session_inv_def)
  define s1 where "s1 = s\<lparr>speakers := delitem (speakers s) i\<rparr>"
  have va1: "list_all valid_entry (speakers s1)" using list_all_delitem[OF va] by (simp add: s1_def)
  have len: "length (speakers s1) = length (speakers s) - 1" using length_delitem[OF i] by (simp add: s1_def)
  consider (same) "current_speaker_index s = int i" | (above) "current_speaker_index s > int i"
    | (below) "current_speaker_index s < int i" by linarith
  then show ?thesis
  proof cases
    case same
    define s2 where "s2 = s1\<lparr>current_speaker_index := - 1\<rparr>"
    have "current_speaker_index s2 = - 1 \<or> speakers s2 = []
           \<or> int (length (speakers s2)) \<le> current_speaker_index s2" by (simp add: s2_def)
    note e = reset_without_speaker[OF this]
    have va2: "list_all valid_entry (speakers s2)" using va1 by (simp add: s2_def)
    have i2: "session_inv (snd (reset_timer s2))"
      using va2 by (simp add: e Let_def session_inv_def index_ok_def)
    have "snd (remove_speaker sel yes s) = snd (reset_timer s2)"
      using sel i yes same
      by (simp add: remove_speaker_def Let_def s1_def s2_def split: prod.split outcome.split)
    with i2 show ?thesis by simp
  next
    case above
    with ok have r: "0 < current_speaker_index s" "current_speaker_index s < int (length (speakers s))"
      by (auto simp: index_ok_def)
    define s2 where "s2 = s1\<lparr>current_speaker_index := current_speaker_index s - 1\<rparr>"
    have e: "remove_speaker sel yes s = (Done, s2)"
      using sel i yes above by (simp add: remove_speaker_def Let_def s1_def s2_def)
    have "i \<le> nat (current_speaker_index s - 1)" "Suc (nat (current_speaker_index s - 1)) < length (speakers s)"
      using above r by auto
    from nth_delitem_after[OF this]
    have nth: "speakers s2 ! nat (current_speaker_index s2) = speakers s ! nat (current_speaker_index s)"
      using r by (simp add: s2_def s1_def Suc_nat_eq_nat_zadd1)
    have "session_inv s2"
      using assms va1 r len nth
      by (simp add: session_inv_def index_ok_def) (auto simp: s2_def s1_def)
    with e show ?thesis by simp
  next
    case below
    have e: "remove_speaker sel yes s = (Done, s1)"
      using sel i yes below by (simp add: remove_speaker_def Let_def s1_def)
    have nth: "current_speaker_index s \<noteq> - 1 \<Longrightarrow>
        speakers s1 ! nat (current_speaker_index s) = speakers s ! nat (current_speaker_index s)"
    proof -
      assume "current_speaker_index s \<noteq> - 1"
      with ok have "0 \<le> current_speaker_index s" by (simp add: index_ok_def)
      with below have "nat (current_speaker_index s) < i" by auto
      from nth_delitem_before[OF this i] show ?thesis by (simp add: s1_def)
    qed
    have "session_inv s1"
      using assms va1 len nth below i
      by (simp add: session_inv_def index_ok_def) (auto simp: s1_def)
    with e show ?thesis by simp
  qed
qed

lemma inv_handle:
  assumes "session_inv s"
  shows "session_inv (handle e s)"
proof (cases e)
  case Press_Stop
  with assms inv_stop[OF assms] show ?thesis by simp
next
  case Close_Display
  have "session_inv (on_speaker_display_close s) = session_inv s"
    by (rule session_inv_cong) (simp_all add: on_speaker_display_close_def)
  with assms Close_Display show ?thesis by simp
next
  case After_Fires
  have "session_inv (s\<lparr>after_queue := after_queue s - 1\<rparr>) = session_inv s"
    by (rule session_inv_cong) simp_all
  with assms inv_update_timer[of "s\<lparr>after_queue := after_queue s - 1\<rparr>"] After_Fires
  show ?thesis by simp
qed (simp_all add: assms inv_start inv_reset inv_next inv_add_update inv_remove
      inv_roster_select inv_open_display)

lemma inv_run: "session_inv s \<Longrightarrow> session_inv (run es s)"
  by (induction es arbitrary: s) (simp_all add: inv_handle)

lemma inv_session: "session_inv (run es init_app)"
  by (rule inv_run[OF inv_init])

lemma zero_loaded_fields:
  "time_left zero_loaded = 0" "\<not> running zero_loaded" "current_speaker_index zero_loaded = 0"
  "speakers zero_loaded = [\<lparr>name = ''Z'', title = ''S'', notes_field = [], minutes = 0, seconds = 0\<rparr>]"
  "warning_threshold zero_loaded = 60" "start_button zero_loaded = normal"
  by (simp_all add: zero_loaded_def add_Z_def app_defs)

lemma start_outcome_with_speaker:
  assumes "session_inv s" and "\<not> running s" and "current_speaker_index s \<noteq> - 1"
  shows "allocation (speakers s ! nat (current_speaker_index s)) = 0
           \<Longrightarrow> start_timer s = (Dialog Invalid_Time_Zero, s)"
    and "allocation (speakers s ! nat (current_speaker_index s)) \<noteq> 0
           \<Longrightarrow> fst (start_timer s) = Done"
proof -
  note v = valid_current[OF assms(1,3)]
  {
    assume z: "allocation (speakers s ! nat (current_speaker_index s)) = 0"
    with assms have t: "time_left s = 0" by (simp add: session_inv_def)
    from z v(3) have "minutes (speakers s ! nat (current_speaker_index s)) = 0"
      "seconds (speakers s ! nat (current_speaker_index s)) = 0"
      by (simp_all add: valid_entry_zero)
    from start_zero_allocation[OF assms(2) v(1,2) t this]
    show "start_timer s = (Dialog Invalid_Time_Zero, s)" .
  }
  {
    assume "allocation (speakers s ! nat (current_speaker_index s)) \<noteq> 0"
    with v(3) have "time_left s \<noteq> 0 \<or> minutes (speakers s ! nat (current_speaker_index s)) \<noteq> 0
         \<or> seconds (speakers s ! nat (current_speaker_index s)) \<noteq> 0"
      by (auto simp: valid_entry_zero)
    from start_proceeds[OF assms(2) v(1,2) this]
    show "fst (start_timer s) = Done" by (simp add: Let_def)
  }
qed

section \<open>The path of a request\<close>




section \<open>The claims\<close>

text \<open>
  C1. The session in which speaker "C" with 0:01 is added and the timer is
  started: the first tick brings \<open>time_left\<close> to 0 with a threshold of 60, so
  \<open>0 \<le> time_left \<le> warning_threshold\<close> holds and the main window shows
  "ROUND UP!". The snapshot published by that same tick has \<open>is_warning\<close>
  false (and \<open>is_past_zero\<close> false): the locked block tests \<open>0 < time_left\<close>
  where \<open>_update_timer\<close> tests \<open>0 <= time_left\<close>. The snapshot before it, for
  \<open>time_left = 1\<close>, has the flag set.
\<close>

theorem snapshot_at_zero_not_warning:
  "time_left at_zero = 0 \<and> warning_threshold at_zero = 60
   \<and> (0 \<le> time_left at_zero \<and> time_left at_zero \<le> warning_threshold at_zero)
   \<and> warning_message_label at_zero = ''ROUND UP!''
   \<and> timer_state at_zero = hd (publications at_zero)
   \<and> time_text (timer_state at_zero) = ''00:00''
   \<and> is_warning (timer_state at_zero) = False
   \<and> is_past_zero (timer_state at_zero) = False
   \<and> is_warning (publications at_zero ! 1) = True"
  by (simp add: at_zero_eq)

text \<open>
  C2. While \<open>running\<close> holds, one execution of \<open>_update_timer\<close> takes exactly 1
  from \<open>time_left\<close> and leaves \<open>running\<close> set, so \<open>n\<close> ticks in a row take
  exactly \<open>n\<close>. While \<open>running\<close> does not hold, a tick changes nothing at all,
  and however many scheduled callbacks come due, \<open>time_left\<close> stays as it is
  and the timer stays stopped.
\<close>

theorem tick_decrements_by_one:
  "(running s \<longrightarrow> time_left (snd (update_timer s)) = time_left s - 1
       \<and> time_left (ticks n s) = time_left s - int n \<and> running (ticks n s))
   \<and> (\<not> running s \<longrightarrow> ticks n s = s
       \<and> time_left (run (replicate n After_Fires) s) = time_left s
       \<and> \<not> running (run (replicate n After_Fires) s))"
  using update_timer_running(1)[of s] ticks_running[of s n] ticks_stopped[of s n] after_fires_stopped[of s n]
  by blast

theorem tick_decrements_by_one_witness:
  "running started \<and> time_left started = 64 \<and> time_left (ticks 65 started) = - 1
   \<and> \<not> running paused \<and> ticks 7 paused = paused
   \<and> time_left (run (replicate 7 After_Fires) paused) = 64"
  using tick_decrements_by_one[of started 65] tick_decrements_by_one[of paused 7]
  by (simp add: paused_eq started_eq)

text \<open>
  C3. For every integer \<open>time_left\<close>, the text that \<open>_display_time\<close> puts on the
  timer label is the string \<open>time_format\<close>: a minus sign exactly when the time
  is negative, then the minutes and the seconds of the absolute value, separated
  by a colon. The seconds are exactly two decimal digits, the minutes at least
  two (exactly two below 100 minutes), and read back as numbers they give the
  absolute value again. 125 seconds print as 02:05, -65 as -01:05 and 0 as 00:00.
\<close>

theorem display_time_text:
  "timer_label (display_time s) = time_format (time_left s)
   \<and> time_format t =
       (if t < 0 then ''-'' else []) @ format_02d (\<bar>t\<bar> div 60) @ '':'' @ format_02d (\<bar>t\<bar> mod 60)
   \<and> length (format_02d (\<bar>t\<bar> mod 60)) = 2
   \<and> 2 \<le> length (format_02d (\<bar>t\<bar> div 60))
   \<and> (length (format_02d (\<bar>t\<bar> div 60)) = 2) = (\<bar>t\<bar> < 6000)
   \<and> set (format_02d (\<bar>t\<bar> div 60)) \<subseteq> set ''0123456789''
   \<and> set (format_02d (\<bar>t\<bar> mod 60)) \<subseteq> set ''0123456789''
   \<and> int (dec_value (format_02d (\<bar>t\<bar> div 60))) * 60 + int (dec_value (format_02d (\<bar>t\<bar> mod 60))) = \<bar>t\<bar>
   \<and> time_format 125 = ''02:05'' \<and> time_format (- 65) = ''-01:05'' \<and> time_format 0 = ''00:00''"
proof -
  have d: "0 \<le> \<bar>t\<bar> div 60" and m: "0 \<le> \<bar>t\<bar> mod 60" and m60: "\<bar>t\<bar> mod 60 < 100" by simp_all
  have a: "timer_label (display_time s) = time_format (time_left s)"
    by (simp add: display_time_def)
  have b: "time_format t =
       (if t < 0 then ''-'' else []) @ format_02d (\<bar>t\<bar> div 60) @ '':'' @ format_02d (\<bar>t\<bar> mod 60)"
    by (simp add: time_format_def Let_def)
  have c: "length (format_02d (\<bar>t\<bar> mod 60)) = 2"
    using m60 by (simp only: format_02d_length_two[OF m])
  have e: "(length (format_02d (\<bar>t\<bar> div 60)) = 2) = (\<bar>t\<bar> < 6000)"
    by (simp only: format_02d_length_two[OF d] minutes_two_digits)
  have f: "int (dec_value (format_02d (\<bar>t\<bar> div 60))) * 60 + int (dec_value (format_02d (\<bar>t\<bar> mod 60))) = \<bar>t\<bar>"
    by (simp only: format_02d_value[OF d] format_02d_value[OF m]) simp
  note k = format_02d_length_ge[OF d] format_02d_digits[OF d] format_02d_digits[OF m]
  show ?thesis
    by (intro conjI a b c e f k time_format_examples)
qed

text \<open>
  C4. In every state that a session of the application reaches, with the timer
  not running: \<open>_start_timer\<close> ends in the "No Speaker" error, the state
  untouched, when no speaker is loaded and the roster is empty; it ends in the
  "00:00 time allocated" error, the state untouched, when the current speaker's
  allocation is zero; a call ends in one of these two errors or starts the
  timer; and whenever it does not start the timer, the timer is still not
  running and \<open>time_left\<close> and \<open>warning_threshold\<close> are what they were.
\<close>

theorem start_failures:
  assumes "s = run es init_app" and "\<not> running s"
  shows "(current_speaker_index s = - 1 \<and> speakers s = [] \<longrightarrow>
            start_timer s = (Dialog No_Speaker, s))
    \<and> (current_speaker_index s \<noteq> - 1
         \<and> allocation (speakers s ! nat (current_speaker_index s)) = 0 \<longrightarrow>
            start_timer s = (Dialog Invalid_Time_Zero, s))
    \<and> (fst (start_timer s) = Done \<or> fst (start_timer s) = Dialog No_Speaker
         \<or> fst (start_timer s) = Dialog Invalid_Time_Zero)
    \<and> (fst (start_timer s) \<noteq> Done \<longrightarrow>
            \<not> running (snd (start_timer s))
            \<and> time_left (snd (start_timer s)) = time_left s
            \<and> warning_threshold (snd (start_timer s)) = warning_threshold s)"
proof -
  have inv: "session_inv s" using assms(1) by (simp add: inv_session)
  have nr: "\<not> running s" by (rule assms(2))
  show ?thesis
  proof (cases "current_speaker_index s = - 1")
    case False
    note o = start_outcome_with_speaker[OF inv nr False]
    show ?thesis
    proof (cases "allocation (speakers s ! nat (current_speaker_index s)) = 0")
      case True
      from o(1)[OF True] nr False show ?thesis by simp
    next
      case nz: False
      from o(2)[OF nz] nz False show ?thesis by simp
    qed
  next
    case True
    with inv have t0: "time_left s = 0" by (simp add: session_inv_def)
    show ?thesis
    proof (cases "speakers s = []")
      case empty: True
      from start_no_speaker[OF nr True empty] nr True show ?thesis by simp
    next
      case False
      let ?s1 = "snd (load_speaker_details 0 s)"
      have r: "(0::int) \<le> 0" "0 < int (length (speakers s))" using False by simp_all
      from inv have va: "list_all valid_entry (speakers s)" by (simp add: session_inv_def)
      have i1: "session_inv ?s1" by (rule inv_load[OF va r])
      have f: "\<not> running ?s1" "current_speaker_index ?s1 \<noteq> - 1"
        "warning_threshold ?s1 = warning_threshold s"
        "time_left ?s1 = allocation (speakers ?s1 ! nat (current_speaker_index ?s1))"
        using nr by (simp_all add: load_in_range[OF r] Let_def)
      have e: "start_timer s = start_timer ?s1" by (rule start_after_load[OF nr True False])
      note o = start_outcome_with_speaker[OF i1 f(1,2)]
      show ?thesis
      proof (cases "allocation (speakers ?s1 ! nat (current_speaker_index ?s1)) = 0")
        case z: True
        from o(1)[OF z] f z t0 True False show ?thesis by (simp add: e)
      next
        case nz: False
        from o(2)[OF nz] True False show ?thesis by (simp add: e)
      qed
    qed
  qed
qed

theorem start_failures_witness:
  "init_app = run [] init_app \<and> \<not> running init_app
   \<and> current_speaker_index init_app = - 1 \<and> speakers init_app = []
   \<and> start_timer init_app = (Dialog No_Speaker, init_app)
   \<and> zero_loaded = run [add_Z] init_app \<and> \<not> running zero_loaded
   \<and> current_speaker_index zero_loaded = 0
   \<and> allocation (speakers zero_loaded ! 0) = 0
   \<and> start_timer zero_loaded = (Dialog Invalid_Time_Zero, zero_loaded)"
proof -
  have a: "init_app = run [] init_app" "zero_loaded = run [add_Z] init_app"
    by (simp_all add: zero_loaded_def)
  have n: "\<not> running init_app" "\<not> running zero_loaded"
    by (simp_all add: init_app_fields zero_loaded_fields)
  from start_failures[OF a(1) n(1)] start_failures[OF a(2) n(2)] a n
  show ?thesis
    by (simp add: init_app_fields zero_loaded_fields allocation_def)
qed

text \<open>
  C5, as stated, at the session in which speaker "A" with 1:05 has been loaded:
  \<open>_start_timer\<close> succeeds and the timer runs, but when it returns \<open>time_left\<close>
  is 64, not the 65 it was before the call.
\<close>

theorem start_decrements_at_once:
  "\<not> running loaded \<and> time_left loaded = 65
   \<and> fst (start_timer loaded) = Done
   \<and> running (snd (start_timer loaded))
   \<and> time_left (snd (start_timer loaded)) = 64
   \<and> time_left (snd (start_timer loaded)) \<noteq> time_left loaded"
  by (simp add: loaded_eq start_timer_def update_timer_def update_shared_timer_state_def
      display_time_def getitem_def Let_def)

text \<open>
  C5, amended. A successful \<open>_start_timer\<close> from a stopped timer sets \<open>running\<close>
  and executes the first tick itself, before it returns: on return \<open>time_left\<close>
  is one less than it was before the call (one less than the allocation of the
  first speaker, when the call had to load that speaker first), and one further
  \<open>_update_timer\<close> has been put into Tk's queue, due a second later.
\<close>

theorem start_runs_first_tick:
  assumes "\<not> running s" and "fst (start_timer s) = Done"
  shows "running (snd (start_timer s))
    \<and> time_left (snd (start_timer s)) =
        (if current_speaker_index s = - 1
         then minutes (speakers s ! 0) * 60 + seconds (speakers s ! 0)
         else time_left s) - 1
    \<and> after_queue (snd (start_timer s)) = Suc (after_queue s)"
proof (cases "current_speaker_index s = - 1")
  case False
  from start_done_with_speaker[OF assms(1) False assms(2)]
  obtain s3 where u: "update_timer (s\<lparr>running := True\<rparr>) = (Done, s3)"
    and e: "snd (start_timer s) = s3\<lparr>start_button := disabled, stop_button := normal\<rparr>"
    by blast
  have "running (s\<lparr>running := True\<rparr>)" by simp
  from update_timer_done[OF this u] e False show ?thesis by simp
next
  case True
  show ?thesis
  proof (cases "speakers s = []")
    case empty: True
    with assms True show ?thesis by (simp add: start_no_speaker)
  next
    case False
    let ?s1 = "snd (load_speaker_details 0 s)"
    have r: "(0::int) \<le> 0" "0 < int (length (speakers s))" using False by simp_all
    note l = load_in_range[OF r]
    have f: "current_speaker_index ?s1 \<noteq> - 1" "\<not> running ?s1" "after_queue ?s1 = after_queue s"
      "time_left ?s1 = minutes (speakers s ! 0) * 60 + seconds (speakers s ! 0)"
      using assms(1) by (simp_all add: l Let_def allocation_def)
    have d: "start_timer s = start_timer ?s1" by (rule start_after_load[OF assms(1) True False])
    with assms(2) have "fst (start_timer ?s1) = Done" by simp
    from start_done_with_speaker[OF f(2) f(1) this]
    obtain s3 where u: "update_timer (?s1\<lparr>running := True\<rparr>) = (Done, s3)"
      and e: "snd (start_timer ?s1) = s3\<lparr>start_button := disabled, stop_button := normal\<rparr>"
      by blast
    have "running (?s1\<lparr>running := True\<rparr>)" by simp
    from update_timer_done[OF this u] e f True show ?thesis by (simp add: d)
  qed
qed

theorem start_runs_first_tick_witness:
  "\<not> running loaded \<and> fst (start_timer loaded) = Done
   \<and> current_speaker_index loaded = 0 \<and> time_left loaded = 65 \<and> after_queue loaded = 0
   \<and> running (snd (start_timer loaded))
   \<and> time_left (snd (start_timer loaded)) = 64
   \<and> after_queue (snd (start_timer loaded)) = 1"
proof -
  have d: "fst (start_timer loaded) = Done"
    by (simp add: loaded_eq start_timer_def update_timer_def update_shared_timer_state_def
        display_time_def getitem_def Let_def)
  have n: "\<not> running loaded" by (simp add: loaded_fields)
  from start_runs_first_tick[OF n d] d show ?thesis by (simp add: loaded_fields)
qed

text \<open>
  C6. The session in which the timer runs on speaker "A" and the user updates
  that speaker to 2:00: \<open>_add_update_speaker\<close> calls \<open>_load_speaker_details\<close>,
  which sets \<open>time_left\<close> to 120, republishes, and sets the buttons as for a
  stopped timer (START enabled, STOP disabled), but \<open>running\<close> stays true: the
  next due callback counts down to 119, and a press on START does nothing.
  Called on its own in a running state, \<open>_load_speaker_details\<close> leaves
  \<open>running\<close> as it is.
\<close>

theorem load_while_running_keeps_running:
  "running started \<and> time_left started = 64
   \<and> running updated_while_running
   \<and> time_left updated_while_running = 120
   \<and> time_text (timer_state updated_while_running) = ''02:00''
   \<and> length (publications updated_while_running) = Suc (length (publications started))
   \<and> start_button updated_while_running = normal
   \<and> stop_button updated_while_running = disabled
   \<and> time_left (handle After_Fires updated_while_running) = 119
   \<and> handle Press_Start updated_while_running = updated_while_running
   \<and> handle Press_Stop updated_while_running = updated_while_running
   \<and> running (snd (load_speaker_details 0 started))"
proof -
  have "time_left (handle After_Fires updated_while_running) = 119"
    by (simp add: updated_while_running_eq update_timer_def update_shared_timer_state_def
        display_time_def getitem_def Let_def)
  moreover have "handle Press_Start updated_while_running = updated_while_running"
    by (simp add: updated_while_running_eq start_timer_def)
  moreover have "handle Press_Stop updated_while_running = updated_while_running"
    by (simp add: updated_while_running_eq)
  moreover have "running (snd (load_speaker_details 0 started))"
    by (simp add: started_eq load_speaker_details_def update_shared_timer_state_def
        display_time_def getitem_def Let_def)
  ultimately show ?thesis
    by (simp add: updated_while_running_eq started_eq)
qed

text \<open>
  C7, as stated, at the running session on speaker "A": \<open>_stop_timer\<close> changes
  the state (the timer no longer runs) but publishes nothing; the shared
  dictionary and the record of writes are what they were.
\<close>

theorem stop_does_not_republish:
  "running started \<and> stop_button started = normal
   \<and> handle Press_Stop started = stop_timer started
   \<and> \<not> running (stop_timer started)
   \<and> publications (stop_timer started) = publications started
   \<and> timer_state (stop_timer started) = timer_state started"
  by (simp add: started_eq stop_timer_def)

text \<open>
  C7, amended. A tick while running, loading a speaker, a reset and a
  successful start each recompute the snapshot and republish it: when the method
  returns, the shared dictionary holds the snapshot of the state it leaves, and
  that snapshot is the newest write (a start that had to load the first speaker
  has written twice, the loaded state and the state after the first tick).
  \<open>_stop_timer\<close> does not republish: it leaves the shared dictionary as it is.
\<close>

theorem republished_on_events:
  assumes "index_ok s"
  shows "(running s \<longrightarrow>
            fst (update_timer s) = Done \<and> republished s (snd (update_timer s)))
    \<and> fst (load_speaker_details i s) = Done \<and> republished s (snd (load_speaker_details i s))
    \<and> fst (reset_timer s) = Done \<and> republished s (snd (reset_timer s))
    \<and> (\<not> running s \<and> fst (start_timer s) = Done \<longrightarrow>
          timer_state (snd (start_timer s)) = fresh_snapshot (snd (start_timer s))
          \<and> publications (snd (start_timer s)) =
              fresh_snapshot (snd (start_timer s))
              # (if current_speaker_index s = - 1
                 then [fresh_snapshot (snd (load_speaker_details 0 s))] else [])
              @ publications s)
    \<and> timer_state (stop_timer s) = timer_state s
    \<and> publications (stop_timer s) = publications s"
proof -
  have tick: "running s \<longrightarrow> fst (update_timer s) = Done \<and> republished s (snd (update_timer s))"
  proof
    assume "running s"
    from update_timer_running_eq[OF this assms] show
      "fst (update_timer s) = Done \<and> republished s (snd (update_timer s))"
      by (simp add: Let_def republished_def fresh_snapshot_def)
  qed
  have load: "fst (load_speaker_details i s) = Done \<and> republished s (snd (load_speaker_details i s))"
  proof (cases "0 \<le> i \<and> i < int (length (speakers s))")
    case True
    then have "0 \<le> i" "i < int (length (speakers s))" by simp_all
    from load_in_range[OF this] show ?thesis
      by (simp add: Let_def republished_def fresh_snapshot_def)
  next
    case False
    then have "i < 0 \<or> int (length (speakers s)) \<le> i" by auto
    from load_out_of_range[OF this] show ?thesis
      by (simp add: Let_def republished_def fresh_snapshot_def)
  qed
  have reset: "fst (reset_timer s) = Done \<and> republished s (snd (reset_timer s))"
  proof (cases "current_speaker_index s = - 1")
    case True
    then have "current_speaker_index s = - 1 \<or> speakers s = []
           \<or> int (length (speakers s)) \<le> current_speaker_index s" by simp
    from reset_without_speaker[OF this] show ?thesis
      by (simp add: Let_def republished_def fresh_snapshot_def)
  next
    case False
    with assms have "0 \<le> current_speaker_index s" "current_speaker_index s < int (length (speakers s))"
      by (simp_all add: index_ok_def)
    from reset_in_range[OF this] show ?thesis
      by (simp add: Let_def republished_def fresh_snapshot_def)
  qed
  have start: "\<not> running s \<and> fst (start_timer s) = Done \<longrightarrow>
          timer_state (snd (start_timer s)) = fresh_snapshot (snd (start_timer s))
          \<and> publications (snd (start_timer s)) =
              fresh_snapshot (snd (start_timer s))
              # (if current_speaker_index s = - 1
                 then [fresh_snapshot (snd (load_speaker_details 0 s))] else [])
              @ publications s"
  proof
    assume a: "\<not> running s \<and> fst (start_timer s) = Done"
    then have nr: "\<not> running s" and d: "fst (start_timer s) = Done" by simp_all
    show "timer_state (snd (start_timer s)) = fresh_snapshot (snd (start_timer s))
          \<and> publications (snd (start_timer s)) =
              fresh_snapshot (snd (start_timer s))
              # (if current_speaker_index s = - 1
                 then [fresh_snapshot (snd (load_speaker_details 0 s))] else [])
              @ publications s"
    proof (cases "current_speaker_index s = - 1")
      case False
      with assms have r: "0 \<le> current_speaker_index s" "current_speaker_index s < int (length (speakers s))"
        by (simp_all add: index_ok_def)
      have "time_left s \<noteq> 0 \<or> minutes (speakers s ! nat (current_speaker_index s)) \<noteq> 0
         \<or> seconds (speakers s ! nat (current_speaker_index s)) \<noteq> 0"
        using start_zero_allocation[OF nr r] d by auto
      from start_proceeds[OF nr r this] False show ?thesis
        by (simp add: Let_def fresh_snapshot_def)
    next
      case True
      have ne: "speakers s \<noteq> []" using start_no_speaker[OF nr True] d by auto
      let ?s1 = "snd (load_speaker_details 0 s)"
      have r0: "(0::int) \<le> 0" "0 < int (length (speakers s))" using ne by simp_all
      note l = load_in_range[OF r0]
      have f: "\<not> running ?s1" "current_speaker_index ?s1 = 0" "speakers ?s1 = speakers s"
        "publications ?s1 = fresh_snapshot ?s1 # publications s"
        using nr by (simp_all add: l Let_def fresh_snapshot_def)
      have e: "start_timer s = start_timer ?s1" by (rule start_after_load[OF nr True ne])
      have r: "0 \<le> current_speaker_index ?s1" "current_speaker_index ?s1 < int (length (speakers ?s1))"
        using r0 by (simp_all add: f)
      have "time_left ?s1 \<noteq> 0 \<or> minutes (speakers ?s1 ! nat (current_speaker_index ?s1)) \<noteq> 0
         \<or> seconds (speakers ?s1 ! nat (current_speaker_index ?s1)) \<noteq> 0"
        using start_zero_allocation[OF f(1) r] d e by auto
      note p = start_proceeds[OF f(1) r this]
      have "timer_state (snd (start_timer ?s1)) = fresh_snapshot (snd (start_timer ?s1))"
        "publications (snd (start_timer ?s1)) = fresh_snapshot (snd (start_timer ?s1)) # publications ?s1"
        by (simp_all add: p Let_def fresh_snapshot_def)
      with True f(4) show ?thesis by (simp add: e)
    qed
  qed
  have stop: "timer_state (stop_timer s) = timer_state s" "publications (stop_timer s) = publications s"
    by (simp_all add: stop_timer_def)
  from tick load reset start stop show ?thesis by blast
qed

theorem republished_on_events_witness:
  "index_ok started \<and> running started
   \<and> fst (update_timer started) = Done
   \<and> length (publications (snd (update_timer started))) = 4
   \<and> time_text (timer_state (snd (update_timer started))) = time_format (time_left (snd (update_timer started)))
   \<and> index_ok loaded \<and> \<not> running loaded \<and> fst (start_timer loaded) = Done
   \<and> length (publications (snd (start_timer loaded))) = 3
   \<and> length (publications (stop_timer started)) = 3"
proof -
  have i: "index_ok started" "index_ok loaded"
    by (simp_all add: index_ok_def started_fields loaded_fields)
  have d: "fst (start_timer loaded) = Done"
    by (simp add: loaded_eq start_timer_def update_timer_def update_shared_timer_state_def
        display_time_def getitem_def Let_def)
  from republished_on_events[OF i(1), of 0] republished_on_events[OF i(2), of 0] i d
  show ?thesis
    by (simp add: started_fields loaded_fields republished_def fresh_snapshot_def)
qed

text \<open>
  C8. With a speaker loaded, \<open>_reset_timer\<close> sets \<open>time_left\<close> to exactly
  \<open>minutes * 60 + seconds\<close> of that speaker; with no speaker loaded it sets it
  to 0. Either way the method returns with the timer stopped and has republished
  the snapshot of the state it leaves. (This holds from every state, running or
  not.)
\<close>

theorem reset_restores_allocation:
  "(0 \<le> current_speaker_index s \<and> current_speaker_index s < int (length (speakers s)) \<longrightarrow>
      fst (reset_timer s) = Done
      \<and> time_left (snd (reset_timer s)) =
          minutes (speakers s ! nat (current_speaker_index s)) * 60
          + seconds (speakers s ! nat (current_speaker_index s))
      \<and> \<not> running (snd (reset_timer s))
      \<and> republished s (snd (reset_timer s)))
   \<and> (current_speaker_index s = - 1 \<longrightarrow>
      fst (reset_timer s) = Done
      \<and> time_left (snd (reset_timer s)) = 0
      \<and> \<not> running (snd (reset_timer s))
      \<and> republished s (snd (reset_timer s)))"
proof (intro conjI impI)
  assume r: "0 \<le> current_speaker_index s \<and> current_speaker_index s < int (length (speakers s))"
  then have r1: "0 \<le> current_speaker_index s" and r2: "current_speaker_index s < int (length (speakers s))"
    by simp_all
  note e = reset_in_range[OF r1 r2]
  show "fst (reset_timer s) = Done" by (simp add: e Let_def)
  show "time_left (snd (reset_timer s)) =
          minutes (speakers s ! nat (current_speaker_index s)) * 60
          + seconds (speakers s ! nat (current_speaker_index s))"
    by (simp add: e Let_def allocation_def)
  show "\<not> running (snd (reset_timer s))" by (simp add: e Let_def)
  show "republished s (snd (reset_timer s))"
    by (simp add: e Let_def republished_def fresh_snapshot_def)
next
  assume n: "current_speaker_index s = - 1"
  then have "current_speaker_index s = - 1 \<or> speakers s = []
           \<or> int (length (speakers s)) \<le> current_speaker_index s" by simp
  note e = reset_without_speaker[OF this]
  show "fst (reset_timer s) = Done" by (simp add: e Let_def)
  show "time_left (snd (reset_timer s)) = 0" by (simp add: e Let_def)
  show "\<not> running (snd (reset_timer s))" by (simp add: e Let_def)
  show "republished s (snd (reset_timer s))"
    by (simp add: e Let_def republished_def fresh_snapshot_def)
qed

theorem reset_restores_allocation_witness:
  "0 \<le> current_speaker_index paused
   \<and> current_speaker_index paused < int (length (speakers paused))
   \<and> time_left paused = 64
   \<and> fst (reset_timer paused) = Done \<and> time_left (snd (reset_timer paused)) = 65
   \<and> length (publications (snd (reset_timer paused))) = 4
   \<and> current_speaker_index init_app = - 1
   \<and> time_left (snd (reset_timer init_app)) = 0
   \<and> length (publications (snd (reset_timer init_app))) = 2"
  using reset_restores_allocation[of paused] reset_restores_allocation[of init_app]
  by (simp add: paused_fields init_app_fields republished_def)




text \<open>
  C10. When \<open>_start_timer\<close> is called with the timer stopped, no speaker loaded
  and a roster that is not empty, it first calls \<open>_load_speaker_details(0)\<close>:
  the first speaker becomes the current one and \<open>time_left\<close> becomes that
  speaker's allocation. It then goes on exactly as a start from the loaded state
  does, so it never ends in the "No Speaker" error: it ends in the "00:00 time
  allocated" error when the first speaker has zero minutes and zero seconds, and
  otherwise the timer runs, on speaker 0.
\<close>

theorem start_loads_first_speaker:
  assumes "\<not> running s" and "current_speaker_index s = - 1" and "speakers s \<noteq> []"
  shows "fst (load_speaker_details 0 s) = Done
    \<and> current_speaker_index (snd (load_speaker_details 0 s)) = 0
    \<and> time_left (snd (load_speaker_details 0 s)) =
        minutes (speakers s ! 0) * 60 + seconds (speakers s ! 0)
    \<and> start_timer (snd (load_speaker_details 0 s)) = start_timer s
    \<and> fst (start_timer s) \<noteq> Dialog No_Speaker
    \<and> (if minutes (speakers s ! 0) = 0 \<and> seconds (speakers s ! 0) = 0
        then start_timer s = (Dialog Invalid_Time_Zero, snd (load_speaker_details 0 s))
        else fst (start_timer s) = Done \<and> running (snd (start_timer s))
             \<and> current_speaker_index (snd (start_timer s)) = 0
             \<and> time_left (snd (start_timer s)) =
                 minutes (speakers s ! 0) * 60 + seconds (speakers s ! 0) - 1)"
proof -
  let ?s1 = "snd (load_speaker_details 0 s)"
  have r: "(0::int) \<le> 0" "0 < int (length (speakers s))" using assms(3) by simp_all
  note l = load_in_range[OF r]
  have a: "fst (load_speaker_details 0 s) = Done" by (simp add: l Let_def)
  have b: "current_speaker_index ?s1 = 0" by (simp add: l Let_def)
  have c: "time_left ?s1 = minutes (speakers s ! 0) * 60 + seconds (speakers s ! 0)"
    by (simp add: l Let_def allocation_def)
  have sp: "speakers ?s1 = speakers s" by (simp add: l Let_def)
  have nr: "\<not> running ?s1" using assms(1) by (simp add: l Let_def)
  have d: "start_timer s = start_timer ?s1" by (rule start_after_load[OF assms])
  have r1: "0 \<le> current_speaker_index ?s1" "current_speaker_index ?s1 < int (length (speakers ?s1))"
    using r by (simp_all add: b sp)
  show ?thesis
  proof (cases "minutes (speakers s ! 0) = 0 \<and> seconds (speakers s ! 0) = 0")
    case True
    then have "start_timer ?s1 = (Dialog Invalid_Time_Zero, ?s1)"
      using c by (intro start_zero_allocation[OF nr r1]) (simp_all add: b sp)
    with True a b c d show ?thesis by simp
  next
    case False
    then have "time_left ?s1 \<noteq> 0 \<or> minutes (speakers ?s1 ! nat (current_speaker_index ?s1)) \<noteq> 0
         \<or> seconds (speakers ?s1 ! nat (current_speaker_index ?s1)) \<noteq> 0"
      by (auto simp: b sp)
    note p = start_proceeds[OF nr r1 this]
    have "fst (start_timer ?s1) = Done" "running (snd (start_timer ?s1))"
      "current_speaker_index (snd (start_timer ?s1)) = 0"
      "time_left (snd (start_timer ?s1)) = time_left ?s1 - 1"
      by (simp_all add: p Let_def b)
    with False a b c d show ?thesis by auto
  qed
qed

theorem start_loads_first_speaker_witness:
  "\<not> running unloaded \<and> current_speaker_index unloaded = - 1 \<and> speakers unloaded \<noteq> []
   \<and> time_left unloaded = 0
   \<and> fst (start_timer unloaded) = Done
   \<and> running (snd (start_timer unloaded))
   \<and> current_speaker_index (snd (start_timer unloaded)) = 0
   \<and> time_left (snd (start_timer unloaded)) = 29"
  using start_loads_first_speaker[of unloaded]
  by (simp add: unloaded_fields)

end
